(* ===== verification/Prelude.thy ===== *)
theory Prelude
  imports Main "HOL-Library.Word"
begin

text \<open>
  Shared vocabulary of the development: the C and Win32 types that
  \<open>src/src/windows/CharacterEncoder.cpp\<close> works with, named as the code names them,
  and the generic lemmas on words, positional arithmetic and lists that the
  component theories share.
\<close>

section \<open>Machine types\<close>

text \<open>
  \<^item> \<open>byte\<close>: one \<open>char\<close> of a \<open>std::string\<close> (the bit pattern; signedness never matters
    to the conversion);
  \<^item> \<open>wchar_t\<close>: one UTF-16 code unit of a \<open>std::wstring\<close> (16 bits on Windows);
  \<^item> \<open>int32\<close>: a C \<open>int\<close>, read as two's complement with \<open>sint\<close>;
  \<^item> \<open>DWORD\<close>: the unsigned 32-bit Win32 type of flags and version numbers;
  \<^item> \<open>size_type\<close>: \<open>std::vector<T>::size_type\<close>, i.e. \<open>size_t\<close> of the x64 target;
  \<^item> \<open>codepoint\<close>: an abstract Unicode code point.
\<close>

type_synonym byte = "8 word"
type_synonym wchar_t = "16 word"
type_synonym int32 = "32 word"
type_synonym DWORD = "32 word"
type_synonym size_type = "64 word"
type_synonym codepoint = nat

text \<open>Evaluation rules for concrete runs of the codec, collected by the component theories.\<close>

named_theorems codec_eval

section \<open>Words\<close>

lemma unat_of_nat_lt:
  "n < 2 ^ LENGTH('a) \<Longrightarrow> unat (of_nat n :: 'a::len word) = n"
  by (simp add: unsigned_of_nat take_bit_nat_eq_self)

lemma unat_of_nat_byte: "n < 256 \<Longrightarrow> unat (of_nat n :: byte) = n"
  by (rule unat_of_nat_lt) simp

lemma unat_of_nat_wchar: "n < 65536 \<Longrightarrow> unat (of_nat n :: wchar_t) = n"
  by (rule unat_of_nat_lt) simp

section \<open>Positional arithmetic\<close>

text \<open>
  Digit \<open>k\<close> of a number in base \<open>B\<close> does not see what is added at position
  \<open>m > k\<close>; this is what lets a multi-byte sequence be read digit by digit.
\<close>

lemma digit_shift:
  assumes "k < m" and "1 < (B::nat)"
  shows "(x + c * B ^ m) div B ^ k mod B = x div B ^ k mod B"
proof -
  from less_imp_Suc_add[OF assms(1)] obtain j where m: "m = Suc (k + j)" ..
  have e: "c * B ^ m = (c * B ^ j * B) * B ^ k"
    unfolding m power_add power_Suc by (simp only: ac_simps)
  have "B ^ k \<noteq> 0" using assms(2) by simp
  then have "(x + c * B ^ m) div B ^ k = x div B ^ k + (c * B ^ j) * B"
    unfolding e by simp
  then show ?thesis by simp
qed

lemma mod_pow_Suc_split:
  "(x::nat) mod (B * B ^ n) = B ^ n * (x div B ^ n mod B) + x mod B ^ n"
  by (metis mod_mult2_eq mult.commute)

section \<open>Lists\<close>

text \<open>Case analysis on the first three elements of a list, for decoders that look ahead three places.\<close>

lemma list_shapes3:
  obtains "r = []" | x where "r = [x]" | x y where "r = [x, y]" | x y z zs where "r = x # y # z # zs"
  by (metis remdups_adj.cases)

end
