(* ===== verification/Utf8.thy ===== *)
theory Utf8
  imports Prelude
begin

text \<open>
  UTF-8 as the Unicode Standard defines it (chapter 3, definitions D92 and Table 3-7):
  the encoding of one scalar value, the strict decoder that rejects every ill-formed
  sequence (overlong forms, encoded surrogates, values above U+10FFFF, stray and
  missing continuation bytes), and the substituting decoder that replaces an
  ill-formed lead byte with U+FFFD. These are the abstract specification of the
  UTF-8 side of the Win32 transcoding functions that \<open>CharacterEncoder.cpp\<close> calls;
  the code itself is modelled in \<open>CharacterEncoder\<close>.
\<close>

section \<open>Scalar values\<close>

definition is_scalar :: "codepoint \<Rightarrow> bool" where
  "is_scalar c \<longleftrightarrow> c < 0xD800 \<or> (0xDFFF < c \<and> c \<le> 0x10FFFF)"

definition replacement_char :: codepoint where
  "replacement_char = 0xFFFD"

lemma is_scalar_replacement [simp]: "is_scalar replacement_char"
  by (simp add: is_scalar_def replacement_char_def)

section \<open>Continuation bytes\<close>

definition is_cont :: "byte \<Rightarrow> bool" where
  "is_cont b \<longleftrightarrow> 0x80 \<le> unat b \<and> unat b < 0xC0"

definition cont_bits :: "byte \<Rightarrow> nat" where
  "cont_bits b = unat b - 0x80"

definition cont_byte :: "nat \<Rightarrow> byte" where
  "cont_byte x = of_nat (0x80 + x)"

text \<open>A lead byte: the marker \<open>L\<close> of the sequence length plus the top bits \<open>x\<close>.\<close>

definition lead_byte :: "nat \<Rightarrow> nat \<Rightarrow> byte" where
  "lead_byte L x = of_nat (L + x)"

text \<open>The \<open>n\<close> continuation bytes that carry the low \<open>6 * n\<close> bits of \<open>x\<close>, most significant first.\<close>

fun conts_of :: "nat \<Rightarrow> nat \<Rightarrow> byte list" where
  "conts_of 0 x = []"
| "conts_of (Suc n) x = cont_byte (x div 64 ^ n mod 64) # conts_of n x"

text \<open>Reading \<open>n\<close> continuation bytes, shifting each one's six bits into the accumulator.\<close>

fun utf8_conts :: "nat \<Rightarrow> nat \<Rightarrow> byte list \<Rightarrow> (nat \<times> byte list) option" where
  "utf8_conts 0 acc r = Some (acc, r)"
| "utf8_conts (Suc n) acc [] = None"
| "utf8_conts (Suc n) acc (b # r) =
     (if is_cont b then utf8_conts n (acc * 64 + cont_bits b) r else None)"

section \<open>Encoding\<close>

definition utf8_encode_char :: "codepoint \<Rightarrow> byte list" where
  "utf8_encode_char c =
     (if c < 0x80 then [lead_byte 0 c]
      else if c < 0x800 then lead_byte 0xC0 (c div 64) # conts_of 1 c
      else if c < 0x10000 then lead_byte 0xE0 (c div 4096) # conts_of 2 c
      else lead_byte 0xF0 (c div 262144) # conts_of 3 c)"

definition utf8_encode :: "codepoint list \<Rightarrow> byte list" where
  "utf8_encode cs = concat (map utf8_encode_char cs)"

definition utf8_len :: "codepoint \<Rightarrow> nat" where
  "utf8_len c = (if c < 0x80 then 1 else if c < 0x800 then 2 else if c < 0x10000 then 3 else 4)"

section \<open>Decoding\<close>

text \<open>
  One sequence: the lead byte fixes the number of continuation bytes and the bits it
  contributes; the value must be at least the smallest one that needs this many
  bytes (no overlong form) and must be a scalar value.
\<close>

definition utf8_seq :: "nat \<Rightarrow> nat \<Rightarrow> nat \<Rightarrow> byte list \<Rightarrow> (codepoint \<times> byte list) option" where
  "utf8_seq n lead lo r =
     (case utf8_conts n lead r of
        None \<Rightarrow> None
      | Some (c, r') \<Rightarrow> if lo \<le> c \<and> is_scalar c then Some (c, r') else None)"

fun utf8_dec1 :: "byte list \<Rightarrow> (codepoint \<times> byte list) option" where
  "utf8_dec1 [] = None"
| "utf8_dec1 (b # r) =
     (if unat b < 0x80 then Some (unat b, r)
      else if unat b < 0xC0 then None
      else if unat b < 0xE0 then utf8_seq 1 (unat b - 0xC0) 0x80 r
      else if unat b < 0xF0 then utf8_seq 2 (unat b - 0xE0) 0x800 r
      else if unat b < 0xF8 then utf8_seq 3 (unat b - 0xF0) 0x10000 r
      else None)"

section \<open>Character-level round trips\<close>

lemma cont_bits_less: "is_cont b \<Longrightarrow> cont_bits b < 64"
  unfolding is_cont_def cont_bits_def by presburger

lemma unat_cont_byte: "x < 64 \<Longrightarrow> unat (cont_byte x) = 0x80 + x"
  unfolding cont_byte_def by (rule unat_of_nat_byte) simp

lemma unat_lead_byte: "L + x < 256 \<Longrightarrow> unat (lead_byte L x) = L + x"
  unfolding lead_byte_def by (rule unat_of_nat_byte)

lemma cont_byte_is_cont [simp]: "x < 64 \<Longrightarrow> is_cont (cont_byte x)"
  by (simp add: is_cont_def unat_cont_byte)

lemma cont_bits_cont_byte [simp]: "x < 64 \<Longrightarrow> cont_bits (cont_byte x) = x"
  by (simp add: cont_bits_def unat_cont_byte)

lemma lead_byte_unat: "L \<le> unat b \<Longrightarrow> lead_byte L (unat b - L) = b"
  by (simp add: lead_byte_def)

lemma cont_byte_bits: "is_cont b \<Longrightarrow> cont_byte (cont_bits b) = b"
  unfolding is_cont_def cont_bits_def cont_byte_def by simp

lemma conts_of_shift: "n \<le> m \<Longrightarrow> conts_of n (x + c * 64 ^ m) = conts_of n x"
  by (induction n) (simp_all add: digit_shift)

lemma length_conts_of [simp]: "length (conts_of n x) = n"
  by (induction n) simp_all

lemma utf8_conts_of:
  "utf8_conts n acc (conts_of n x @ r) = Some (acc * 64 ^ n + x mod 64 ^ n, r)"
proof (induction n arbitrary: acc)
  case 0
  then show ?case by simp
next
  case (Suc n)
  have d: "x div 64 ^ n mod 64 < 64" by simp
  have "utf8_conts (Suc n) acc (conts_of (Suc n) x @ r) =
        utf8_conts n (acc * 64 + x div 64 ^ n mod 64) (conts_of n x @ r)"
    using d by simp
  also have "\<dots> = Some (acc * 64 ^ Suc n + x mod 64 ^ Suc n, r)"
    by (simp add: Suc.IH mod_pow_Suc_split algebra_simps)
  finally show ?case .
qed

lemma utf8_conts_inv:
  "utf8_conts n acc bs = Some (v, r) \<Longrightarrow>
   \<exists>x < 64 ^ n. v = acc * 64 ^ n + x \<and> bs = conts_of n x @ r"
proof (induction n acc bs rule: utf8_conts.induct)
  case (1 acc r)
  then show ?case by simp
next
  case (2 n acc)
  then show ?case by simp
next
  case (3 n acc b r')
  then have c: "is_cont b" and rec: "utf8_conts n (acc * 64 + cont_bits b) r' = Some (v, r)"
    by (simp_all split: if_splits)
  from "3.IH"[OF c rec] obtain x where x: "x < 64 ^ n"
    "v = (acc * 64 + cont_bits b) * 64 ^ n + x" "r' = conts_of n x @ r"
    by blast
  have cb: "cont_bits b < 64" using c by (rule cont_bits_less)
  define y where "y = x + cont_bits b * 64 ^ n"
  have "Suc (cont_bits b) * 64 ^ n \<le> 64 * (64::nat) ^ n"
    using cb by (intro mult_le_mono1) simp
  then have "64 ^ n + cont_bits b * 64 ^ n \<le> 64 * (64::nat) ^ n" by simp
  then have y: "y < 64 ^ Suc n" using x(1) unfolding y_def power_Suc by linarith
  have "y div 64 ^ n = cont_bits b" using x(1) unfolding y_def by simp
  then have h: "cont_byte (y div 64 ^ n mod 64) = b" using cb c by (simp add: cont_byte_bits)
  have "conts_of n y = conts_of n x" unfolding y_def by (rule conts_of_shift) simp
  with h have "conts_of (Suc n) y = b # conts_of n x" by simp
  moreover have "v = acc * 64 ^ Suc n + y" using x(2) unfolding y_def by (simp add: algebra_simps)
  ultimately show ?case using y x(3) by auto
qed

text \<open>A lead byte of offset \<open>L\<close> and \<open>n\<close> continuation bytes, read back as one value.\<close>

lemma utf8_seq_inv:
  assumes "utf8_seq n (unat b - L) lo r0 = Some (c, r)" and "L \<le> unat b"
  shows "lo \<le> c \<and> is_scalar c \<and> c div 64 ^ n = unat b - L \<and> r0 = conts_of n c @ r"
proof -
  from assms(1) have s: "utf8_conts n (unat b - L) r0 = Some (c, r)" and v: "lo \<le> c" "is_scalar c"
    by (auto simp: utf8_seq_def split: option.splits if_splits)
  from utf8_conts_inv[OF s] obtain x where x: "x < 64 ^ n" "c = (unat b - L) * 64 ^ n + x"
    "r0 = conts_of n x @ r" by blast
  have "c div 64 ^ n = unat b - L" using x(1,2) by simp
  moreover have "conts_of n c = conts_of n x"
    using x(2) conts_of_shift[of n n x "unat b - L"] by (simp add: add.commute)
  ultimately show ?thesis using v x(3) by simp
qed

declare conts_of.simps [simp del]

section \<open>Evaluation on concrete sequences\<close>

lemma conts_of_numeral [codec_eval]:
  "conts_of 0 x = []"
  "conts_of (numeral k) x = cont_byte (x div 64 ^ pred_numeral k mod 64) # conts_of (pred_numeral k) x"
  by (simp add: conts_of.simps) (simp only: numeral_eq_Suc[of k] conts_of.simps)

lemma utf8_conts_numeral [codec_eval]:
  "utf8_conts (numeral k) acc [] = None"
  "utf8_conts (numeral k) acc (b # r) =
     (if is_cont b then utf8_conts (pred_numeral k) (acc * 64 + cont_bits b) r else None)"
  by (simp only: numeral_eq_Suc[of k] utf8_conts.simps)+

lemmas [codec_eval] = conts_of.simps is_scalar_def is_cont_def cont_bits_def cont_byte_def lead_byte_def
  utf8_seq_def utf8_encode_char_def replacement_char_def

section \<open>Character-level round trips, continued\<close>


lemma utf8_dec1_encode:
  assumes "is_scalar c"
  shows "utf8_dec1 (utf8_encode_char c @ r) = Some (c, r)"
proof -
  have sc: "c \<le> 0x10FFFF" using assms by (auto simp: is_scalar_def)
  consider "c < 0x80" | "0x80 \<le> c" "c < 0x800" | "0x800 \<le> c" "c < 0x10000" | "0x10000 \<le> c"
    by linarith
  then show ?thesis
  proof cases
    case 1
    then show ?thesis by (simp add: utf8_encode_char_def unat_lead_byte)
  next
    case 2
    then have d: "c div 64 < 32" by simp
    then have "unat (lead_byte 0xC0 (c div 64)) = 0xC0 + c div 64"
      by (intro unat_lead_byte) simp
    with 2 d assms show ?thesis
      by (simp add: utf8_encode_char_def utf8_seq_def utf8_conts_of)
  next
    case 3
    then have d: "c div 4096 < 16" by simp
    then have "unat (lead_byte 0xE0 (c div 4096)) = 0xE0 + c div 4096"
      by (intro unat_lead_byte) simp
    with 3 d assms show ?thesis
      by (simp add: utf8_encode_char_def utf8_seq_def utf8_conts_of)
  next
    case 4
    have d: "c div 262144 < 5" using sc by simp
    then have "unat (lead_byte 0xF0 (c div 262144)) = 0xF0 + c div 262144"
      by (intro unat_lead_byte) simp
    with 4 d assms show ?thesis
      by (simp add: utf8_encode_char_def utf8_seq_def utf8_conts_of)
  qed
qed

text \<open>
  A surrogate code point (D800..DFFF) has a three-byte form under the same bit layout,
  but the decoder rejects it, since it is not a scalar value.
\<close>

lemma utf8_dec1_encode_surrogate:
  assumes "0xD800 \<le> c" and "c \<le> 0xDFFF"
  shows "utf8_dec1 (utf8_encode_char c @ r) = None"
proof -
  have d: "c div 4096 < 16" using assms(2) by simp
  then have "unat (lead_byte 0xE0 (c div 4096)) = 0xE0 + c div 4096"
    by (intro unat_lead_byte) simp
  with assms d show ?thesis
    by (simp add: utf8_encode_char_def utf8_seq_def utf8_conts_of is_scalar_def)
qed

lemma utf8_seq_encode:
  assumes "utf8_seq n (unat b - L) lo r0 = Some (c, r)" and "L \<le> unat b"
    and "unat b < L + B" and "B * 64 ^ n \<le> hi"
    and "utf8_encode_char c = lead_byte L (c div 64 ^ n) # conts_of n c \<or> c < lo \<or> hi \<le> c"
  shows "is_scalar c \<and> b # r0 = utf8_encode_char c @ r"
proof -
  from utf8_seq_inv[OF assms(1,2)] have s: "lo \<le> c" "is_scalar c" "c div 64 ^ n = unat b - L"
    "r0 = conts_of n c @ r" by auto
  have "c div 64 ^ n < B" using s(3) assms(2,3) by simp
  then have "c < B * 64 ^ n" by (simp add: div_less_iff_less_mult)
  then have "c < hi" using assms(4) by simp
  then have "utf8_encode_char c = lead_byte L (unat b - L) # conts_of n c"
    using assms(5) s(1,3) by auto
  then show ?thesis using s(2,4) assms(2) by (simp add: lead_byte_unat)
qed

lemma utf8_dec1_inv:
  assumes "utf8_dec1 bs = Some (c, r)"
  shows "is_scalar c \<and> bs = utf8_encode_char c @ r"
proof (cases bs)
  case Nil
  with assms show ?thesis by simp
next
  case (Cons b r0)
  consider "unat b < 0x80" | "0x80 \<le> unat b" "unat b < 0xC0" | "0xC0 \<le> unat b" "unat b < 0xE0"
    | "0xE0 \<le> unat b" "unat b < 0xF0" | "0xF0 \<le> unat b" "unat b < 0xF8" | "0xF8 \<le> unat b"
    by linarith
  then show ?thesis
  proof cases
    case 1
    with assms Cons show ?thesis
      by (auto simp: utf8_encode_char_def is_scalar_def lead_byte_def)
  next
    case 2
    with assms Cons show ?thesis by simp
  next
    case 3
    with assms Cons have s: "utf8_seq 1 (unat b - 0xC0) 0x80 r0 = Some (c, r)" by simp
    have "is_scalar c \<and> b # r0 = utf8_encode_char c @ r"
      by (rule utf8_seq_encode[where B = 32 and hi = "0x800", OF s]) (use 3 in \<open>auto simp: utf8_encode_char_def\<close>)
    then show ?thesis using Cons by simp
  next
    case 4
    with assms Cons have s: "utf8_seq 2 (unat b - 0xE0) 0x800 r0 = Some (c, r)" by simp
    have "is_scalar c \<and> b # r0 = utf8_encode_char c @ r"
      by (rule utf8_seq_encode[where B = 16 and hi = "0x10000", OF s]) (use 4 in \<open>auto simp: utf8_encode_char_def\<close>)
    then show ?thesis using Cons by simp
  next
    case 5
    with assms Cons have s: "utf8_seq 3 (unat b - 0xF0) 0x10000 r0 = Some (c, r)" by simp
    have "is_scalar c \<and> b # r0 = utf8_encode_char c @ r"
      by (rule utf8_seq_encode[where B = 8 and hi = "0x200000", OF s]) (use 5 in \<open>auto simp: utf8_encode_char_def\<close>)
    then show ?thesis using Cons by simp
  next
    case 6
    with assms Cons show ?thesis by simp
  qed
qed


lemma utf8_dec1_shorter: "utf8_dec1 bs = Some (c, r) \<Longrightarrow> length r < length bs"
  using utf8_dec1_inv[of bs c r] by (auto simp: utf8_encode_char_def)

lemma length_utf8_encode_char: "length (utf8_encode_char c) = utf8_len c"
  by (simp add: utf8_encode_char_def utf8_len_def length_conts_of)

lemma utf8_encode_char_nonempty: "utf8_encode_char c \<noteq> []"
  by (simp add: utf8_encode_char_def)

lemma utf8_len_bounds: "1 \<le> utf8_len c \<and> utf8_len c \<le> 4"
  by (simp add: utf8_len_def)

lemma utf8_encode_Nil [simp]: "utf8_encode [] = []"
  by (simp add: utf8_encode_def)

lemma utf8_encode_Cons [simp]: "utf8_encode (c # cs) = utf8_encode_char c @ utf8_encode cs"
  by (simp add: utf8_encode_def)

lemma utf8_encode_append: "utf8_encode (cs @ ds) = utf8_encode cs @ utf8_encode ds"
  by (simp add: utf8_encode_def)

lemma length_utf8_encode: "length (utf8_encode cs) = (\<Sum>c\<leftarrow>cs. utf8_len c)"
  by (induction cs) (simp_all add: length_utf8_encode_char)

end
