(* ===== verification/Utf8_String.thy ===== *)
theory Utf8_String
  imports Utf8
begin

text \<open>
  UTF-8 strings: the strict decoder, which fails on the first ill-formed sequence
  (the behaviour the Win32 conversion has under \<open>MB_ERR_INVALID_CHARS\<close>), and the
  substituting decoder, which replaces each byte that does not start a well-formed
  sequence with U+FFFD and resumes at the next byte. The lemmas show that strict
  decoding and encoding are inverse on scalar values, and how both decoders split
  over a concatenation.
\<close>

section \<open>Decoders\<close>

function utf8_decode :: "byte list \<Rightarrow> codepoint list option" where
  "utf8_decode [] = Some []"
| "utf8_decode (b # bs) =
     (case utf8_dec1 (b # bs) of
        None \<Rightarrow> None
      | Some (c, r) \<Rightarrow> map_option (Cons c) (utf8_decode r))"
  by pat_completeness auto
termination
  by (relation "measure length") (auto dest: utf8_dec1_shorter simp del: utf8_dec1.simps)

function utf8_decode_lenient :: "byte list \<Rightarrow> codepoint list" where
  "utf8_decode_lenient [] = []"
| "utf8_decode_lenient (b # bs) =
     (case utf8_dec1 (b # bs) of
        None \<Rightarrow> replacement_char # utf8_decode_lenient bs
      | Some (c, r) \<Rightarrow> c # utf8_decode_lenient r)"
  by pat_completeness auto
termination
  by (relation "measure length") (auto dest: utf8_dec1_shorter simp del: utf8_dec1.simps)

definition utf8_valid :: "byte list \<Rightarrow> bool" where
  "utf8_valid bs \<longleftrightarrow> utf8_decode bs \<noteq> None"

section \<open>Round trips\<close>

lemma utf8_decode_encode_char_append:
  assumes "is_scalar c"
  shows "utf8_decode (utf8_encode_char c @ r) = map_option (Cons c) (utf8_decode r)"
proof -
  obtain b bs where e: "utf8_encode_char c = b # bs"
    using utf8_encode_char_nonempty by (cases "utf8_encode_char c") auto
  have "utf8_dec1 (b # bs @ r) = Some (c, r)"
    using utf8_dec1_encode[OF assms, of r] e by (simp del: utf8_dec1.simps)
  then show ?thesis using e by (simp del: utf8_dec1.simps)
qed

lemma utf8_decode_encode_append:
  "list_all is_scalar cs \<Longrightarrow> utf8_decode (utf8_encode cs @ r) = map_option ((@) cs) (utf8_decode r)"
  by (induction cs) (cases "utf8_decode r"; simp add: utf8_decode_encode_char_append)+

lemma utf8_decode_encode: "list_all is_scalar cs \<Longrightarrow> utf8_decode (utf8_encode cs) = Some cs"
  using utf8_decode_encode_append[of cs "[]"] by simp

text \<open>
  Encoding a list that holds a surrogate code point gives bytes the decoder rejects:
  the sequences before it decode, the surrogate's three-byte form does not.
\<close>

lemma utf8_decode_encode_nonscalar:
  assumes "list_all (\<lambda>c. c \<le> 0x10FFFF) cs" and "\<not> list_all is_scalar cs"
  shows "utf8_decode (utf8_encode cs @ r) = None"
  using assms
proof (induction cs)
  case Nil
  then show ?case by simp
next
  case (Cons c cs)
  show ?case
  proof (cases "is_scalar c")
    case True
    with Cons show ?thesis by (simp add: utf8_decode_encode_char_append)
  next
    case False
    with Cons.prems have s: "0xD800 \<le> c" "c \<le> 0xDFFF" by (auto simp: is_scalar_def)
    obtain b bs where e: "utf8_encode_char c = b # bs"
      using utf8_encode_char_nonempty by (cases "utf8_encode_char c") auto
    have "utf8_dec1 (b # bs @ utf8_encode cs @ r) = None"
      using utf8_dec1_encode_surrogate[OF s, of "utf8_encode cs @ r"] e by (simp del: utf8_dec1.simps)
    then show ?thesis using e by (simp del: utf8_dec1.simps)
  qed
qed

lemma utf8_decode_inv:
  "utf8_decode bs = Some cs \<Longrightarrow> list_all is_scalar cs \<and> utf8_encode cs = bs"
proof (induction bs arbitrary: cs rule: utf8_decode.induct)
  case 1
  then show ?case by simp
next
  case (2 b bs)
  then obtain c r cs' where d: "utf8_dec1 (b # bs) = Some (c, r)" and rec: "utf8_decode r = Some cs'"
    and cs: "cs = c # cs'"
    by (auto simp del: utf8_dec1.simps split: option.splits)
  from utf8_dec1_inv[OF d] have "is_scalar c" "b # bs = utf8_encode_char c @ r" by auto
  with "2.IH"[OF d refl rec] cs show ?case by simp
qed

lemma utf8_encode_char_ascii: "unat b < 0x80 \<Longrightarrow> utf8_encode_char (unat b) = [b]"
  by (simp add: utf8_encode_char_def lead_byte_def)

lemma utf8_encode_ascii_replicate:
  "unat b < 0x80 \<Longrightarrow> utf8_encode (replicate n (unat b)) = replicate n b"
  by (induction n) (simp_all add: utf8_encode_char_ascii)

text \<open>A run of ASCII bytes decodes byte by byte, whatever follows it.\<close>

lemma utf8_decode_ascii_prefix:
  assumes "unat b < 0x80"
  shows "utf8_decode (replicate n b @ r) = map_option ((@) (replicate n (unat b))) (utf8_decode r)"
proof -
  have "utf8_encode (replicate n (unat b)) = replicate n b"
    using assms by (rule utf8_encode_ascii_replicate)
  moreover have "list_all is_scalar (replicate n (unat b))"
    using assms by (simp add: is_scalar_def list_all_iff)
  ultimately show ?thesis using utf8_decode_encode_append[of "replicate n (unat b)" r] by simp
qed

lemma length_utf8_encode_replicate: "length (utf8_encode (replicate n c)) = n * utf8_len c"
  by (induction n) (simp_all add: length_utf8_encode_char)

text \<open>Well-formed strings decode piecewise: a concatenation decodes to the concatenation.\<close>

lemma utf8_decode_append_Some:
  "utf8_decode s1 = Some c1 \<Longrightarrow> utf8_decode s2 = Some c2 \<Longrightarrow> utf8_decode (s1 @ s2) = Some (c1 @ c2)"
  using utf8_decode_inv[of s1 c1] utf8_decode_encode_append[of c1 s2] by auto

end
