(* ===== verification/Utf16.thy ===== *)
theory Utf16
  imports Utf8_String
begin

text \<open>
  UTF-16 as the Unicode Standard defines it (definition D91): a scalar value below
  U+10000 is one code unit, a supplementary one is a high surrogate
  (D800..DBFF) followed by a low surrogate (DC00..DFFF). The strict decoder
  rejects a lone surrogate (the behaviour of the Win32 conversion under
  \<open>WC_ERR_INVALID_CHARS\<close>); the substituting decoders replace it, with U+FFFD
  or with the surrogate's own value (the behaviours without the flag).
\<close>

section \<open>Code units\<close>

definition wchar :: "nat \<Rightarrow> wchar_t" where
  "wchar n = of_nat n"

definition is_high_surrogate :: "wchar_t \<Rightarrow> bool" where
  "is_high_surrogate u \<longleftrightarrow> 0xD800 \<le> unat u \<and> unat u < 0xDC00"

definition is_low_surrogate :: "wchar_t \<Rightarrow> bool" where
  "is_low_surrogate u \<longleftrightarrow> 0xDC00 \<le> unat u \<and> unat u < 0xE000"

definition surrogate_pair :: "wchar_t \<Rightarrow> wchar_t \<Rightarrow> codepoint" where
  "surrogate_pair u v = 0x10000 + (unat u - 0xD800) * 1024 + (unat v - 0xDC00)"

section \<open>Encoding\<close>

definition utf16_encode_char :: "codepoint \<Rightarrow> wchar_t list" where
  "utf16_encode_char c =
     (if c < 0x10000 then [wchar c]
      else [wchar (0xD800 + (c - 0x10000) div 1024), wchar (0xDC00 + (c - 0x10000) mod 1024)])"

definition utf16_encode :: "codepoint list \<Rightarrow> wchar_t list" where
  "utf16_encode cs = concat (map utf16_encode_char cs)"

definition utf16_len :: "codepoint \<Rightarrow> nat" where
  "utf16_len c = (if c < 0x10000 then 1 else 2)"

section \<open>Decoding\<close>

fun utf16_decode :: "wchar_t list \<Rightarrow> codepoint list option" where
  "utf16_decode [] = Some []"
| "utf16_decode (u # us) =
     (if is_high_surrogate u then
        (case us of
           [] \<Rightarrow> None
         | v # us' \<Rightarrow>
             if is_low_surrogate v then map_option (Cons (surrogate_pair u v)) (utf16_decode us')
             else None)
      else if is_low_surrogate u then None
      else map_option (Cons (unat u)) (utf16_decode us))"

text \<open>
  Substituting decoding: a surrogate pair is one supplementary code point, and a lone
  surrogate \<open>u\<close> becomes the code point \<open>lone u\<close>. Without the strict flag the Win32
  conversion substitutes U+FFFD from Windows Vista on (\<open>utf16_decode_lenient\<close>),
  while earlier systems keep the surrogate's own value (\<open>utf16_decode_surrogates\<close>),
  which UTF-8 encoding then writes in its three-byte form.
\<close>

fun utf16_decode_subst :: "(wchar_t \<Rightarrow> codepoint) \<Rightarrow> wchar_t list \<Rightarrow> codepoint list" where
  "utf16_decode_subst lone [] = []"
| "utf16_decode_subst lone (u # us) =
     (if is_high_surrogate u then
        (case us of
           [] \<Rightarrow> [lone u]
         | v # us' \<Rightarrow>
             if is_low_surrogate v then surrogate_pair u v # utf16_decode_subst lone us'
             else lone u # utf16_decode_subst lone us)
      else if is_low_surrogate u then lone u # utf16_decode_subst lone us
      else unat u # utf16_decode_subst lone us)"

abbreviation utf16_decode_lenient :: "wchar_t list \<Rightarrow> codepoint list" where
  "utf16_decode_lenient \<equiv> utf16_decode_subst (\<lambda>_. replacement_char)"

abbreviation utf16_decode_surrogates :: "wchar_t list \<Rightarrow> codepoint list" where
  "utf16_decode_surrogates \<equiv> utf16_decode_subst unat"

definition utf16_valid :: "wchar_t list \<Rightarrow> bool" where
  "utf16_valid us \<longleftrightarrow> utf16_decode us \<noteq> None"

section \<open>Code-unit arithmetic\<close>

lemma unat_wchar: "n < 65536 \<Longrightarrow> unat (wchar n) = n"
  unfolding wchar_def by (rule unat_of_nat_wchar)

lemma wchar_unat: "wchar (unat u) = u"
  by (simp add: wchar_def)

lemmas [codec_eval] = wchar_def is_high_surrogate_def is_low_surrogate_def surrogate_pair_def
  utf16_encode_char_def

section \<open>Round trips\<close>

lemma utf16_encode_Nil [simp]: "utf16_encode [] = []"
  by (simp add: utf16_encode_def)

lemma utf16_encode_Cons [simp]: "utf16_encode (c # cs) = utf16_encode_char c @ utf16_encode cs"
  by (simp add: utf16_encode_def)

lemma utf16_encode_append: "utf16_encode (cs @ ds) = utf16_encode cs @ utf16_encode ds"
  by (simp add: utf16_encode_def)

lemma utf16_decode_encode_char_append:
  assumes "is_scalar c"
  shows "utf16_decode (utf16_encode_char c @ r) = map_option (Cons c) (utf16_decode r)"
proof (cases "c < 0x10000")
  case True
  then have u: "unat (wchar c) = c" by (simp add: unat_wchar)
  with assms have "\<not> is_high_surrogate (wchar c)" "\<not> is_low_surrogate (wchar c)"
    by (auto simp: is_high_surrogate_def is_low_surrogate_def is_scalar_def)
  with True u show ?thesis by (simp add: utf16_encode_char_def)
next
  case False
  define d where "d = c - 0x10000"
  have "d < 0x100000" using assms False by (simp add: is_scalar_def d_def)
  then have q: "d div 1024 < 1024" by simp
  have m: "d mod 1024 < 1024" by simp
  have hi: "unat (wchar (0xD800 + d div 1024)) = 0xD800 + d div 1024"
    using q by (intro unat_wchar) simp
  have lo: "unat (wchar (0xDC00 + d mod 1024)) = 0xDC00 + d mod 1024"
    using m by (intro unat_wchar) simp
  have "surrogate_pair (wchar (0xD800 + d div 1024)) (wchar (0xDC00 + d mod 1024)) =
        0x10000 + d div 1024 * 1024 + d mod 1024"
    by (simp add: surrogate_pair_def hi lo)
  also have "\<dots> = c" using False by (simp add: d_def)
  finally have "surrogate_pair (wchar (0xD800 + d div 1024)) (wchar (0xDC00 + d mod 1024)) = c" .
  then show ?thesis using False q m hi lo
    by (simp add: utf16_encode_char_def is_high_surrogate_def is_low_surrogate_def d_def)
qed

lemma utf16_decode_encode_append:
  "list_all is_scalar cs \<Longrightarrow> utf16_decode (utf16_encode cs @ r) = map_option ((@) cs) (utf16_decode r)"
  by (induction cs) (cases "utf16_decode r"; simp add: utf16_decode_encode_char_append)+

lemma utf16_decode_encode: "list_all is_scalar cs \<Longrightarrow> utf16_decode (utf16_encode cs) = Some cs"
  using utf16_decode_encode_append[of cs "[]"] by simp

lemma surrogate_pair_encode:
  assumes "is_high_surrogate u" and "is_low_surrogate v"
  shows "is_scalar (surrogate_pair u v) \<and> utf16_encode_char (surrogate_pair u v) = [u, v]"
proof -
  have a: "unat u - 0xD800 < 1024" and b: "unat v - 0xDC00 < 1024"
    using assms unfolding is_high_surrogate_def is_low_surrogate_def by linarith+
  define p where "p = surrogate_pair u v"
  have pd: "p - 0x10000 = (unat u - 0xD800) * 1024 + (unat v - 0xDC00)"
    by (simp add: p_def surrogate_pair_def)
  then have "p - 0x10000 < 1024 * 1024" using a b by simp
  then have "0x10000 \<le> p \<and> p \<le> 0x10FFFF" by (simp add: p_def surrogate_pair_def)
  moreover have "(p - 0x10000) div 1024 = unat u - 0xD800" "(p - 0x10000) mod 1024 = unat v - 0xDC00"
    using pd a b by simp_all
  ultimately show ?thesis using assms unfolding p_def
    by (simp add: is_scalar_def utf16_encode_char_def is_high_surrogate_def
        is_low_surrogate_def wchar_unat)
qed

lemma utf16_decode_inv:
  "utf16_decode us = Some cs \<Longrightarrow> list_all is_scalar cs \<and> utf16_encode cs = us"
proof (induction us arbitrary: cs rule: utf16_decode.induct)
  case 1
  then show ?case by simp
next
  case (2 u us)
  show ?case
  proof (cases "is_high_surrogate u")
    case True
    with "2.prems" obtain v us' cs' where us: "us = v # us'" and lo: "is_low_surrogate v"
      and rec: "utf16_decode us' = Some cs'" and cs: "cs = surrogate_pair u v # cs'"
      by (auto split: list.splits if_splits)
    from "2.IH"(1)[OF True us lo rec] surrogate_pair_encode[OF True lo] us cs
    show ?thesis by simp
  next
    case False
    with "2.prems" obtain cs' where nl: "\<not> is_low_surrogate u"
      and rec: "utf16_decode us = Some cs'" and cs: "cs = unat u # cs'"
      by (auto split: if_splits)
    have "unat u < 65536" using unsigned_less[of u] by simp
    with False nl have "is_scalar (unat u)" "utf16_encode_char (unat u) = [u]"
      by (auto simp: is_scalar_def is_high_surrogate_def is_low_surrogate_def
          utf16_encode_char_def wchar_unat)
    with "2.IH"(2)[OF False nl rec] cs show ?thesis by simp
  qed
qed

section \<open>Lengths\<close>

lemma length_utf16_encode_char: "length (utf16_encode_char c) = utf16_len c"
  by (simp add: utf16_encode_char_def utf16_len_def)

lemma length_utf16_encode: "length (utf16_encode cs) = (\<Sum>c\<leftarrow>cs. utf16_len c)"
  by (induction cs) (simp_all add: length_utf16_encode_char)

lemma utf16_len_le_utf8_len: "utf16_len c \<le> utf8_len c"
  by (simp add: utf16_len_def utf8_len_def)

lemma utf8_len_le_3_utf16_len: "utf8_len c \<le> 3 * utf16_len c"
  by (simp add: utf16_len_def utf8_len_def)

text \<open>A string never needs more UTF-16 code units than UTF-8 bytes, nor more than three bytes per unit.\<close>

lemma length_utf16_le_utf8: "length (utf16_encode cs) \<le> length (utf8_encode cs)"
  unfolding length_utf16_encode length_utf8_encode by (rule sum_list_mono) (rule utf16_len_le_utf8_len)

lemma length_utf8_le_3_utf16: "length (utf8_encode cs) \<le> 3 * length (utf16_encode cs)"
proof -
  have "length (utf8_encode cs) \<le> (\<Sum>c\<leftarrow>cs. 3 * utf16_len c)"
    unfolding length_utf8_encode by (rule sum_list_mono) (rule utf8_len_le_3_utf16_len)
  also have "\<dots> = 3 * length (utf16_encode cs)"
    by (simp add: length_utf16_encode sum_list_const_mult)
  finally show ?thesis .
qed

lemma utf16_encode_eq_Nil [simp]: "utf16_encode cs = [] \<longleftrightarrow> cs = []"
  by (cases cs) (simp_all add: utf16_encode_char_def)

lemma utf8_encode_eq_Nil [simp]: "utf8_encode cs = [] \<longleftrightarrow> cs = []"
  by (cases cs) (simp_all add: utf8_encode_char_nonempty)

section \<open>Strict and substituting decoding\<close>

lemma utf16_decode_subst_Nil_iff [simp]: "utf16_decode_subst lone us = [] \<longleftrightarrow> us = []"
  by (cases us) (simp_all split: list.splits)

lemma utf16_decode_Some_nonempty:
  "utf16_decode us = Some cps \<Longrightarrow> us \<noteq> [] \<Longrightarrow> cps \<noteq> []"
  using utf16_decode_inv[of us cps] by auto

lemma utf16_decode_subst_strict:
  "utf16_decode us = Some cs \<Longrightarrow> utf16_decode_subst lone us = cs"
proof (induction us arbitrary: cs rule: utf16_decode.induct)
  case 1
  then show ?case by simp
next
  case (2 u us)
  show ?case
  proof (cases "is_high_surrogate u")
    case True
    with "2.prems" obtain v us' cs' where us: "us = v # us'" and lo: "is_low_surrogate v"
      and rec: "utf16_decode us' = Some cs'" and cs: "cs = surrogate_pair u v # cs'"
      by (auto split: list.splits if_splits)
    from "2.IH"(1)[OF True us lo rec] True us lo cs show ?thesis by simp
  next
    case False
    with "2.prems" obtain cs' where nl: "\<not> is_low_surrogate u"
      and rec: "utf16_decode us = Some cs'" and cs: "cs = unat u # cs'"
      by (auto split: if_splits)
    from "2.IH"(2)[OF False nl rec] False nl cs show ?thesis by simp
  qed
qed

lemma unat_non_surrogate_scalar:
  "\<not> is_high_surrogate u \<Longrightarrow> \<not> is_low_surrogate u \<Longrightarrow> is_scalar (unat u)"
proof -
  have "unat u < 65536" using unsigned_less[of u] by simp
  then show "\<not> is_high_surrogate u \<Longrightarrow> \<not> is_low_surrogate u \<Longrightarrow> is_scalar (unat u)"
    by (auto simp: is_scalar_def is_high_surrogate_def is_low_surrogate_def)
qed

lemma utf8_decode_utf16_length:
  assumes "utf8_decode bs = Some cps"
  shows "length (utf16_encode cps) \<le> length bs"
  using utf8_decode_inv[OF assms] length_utf16_le_utf8[of cps] by simp

lemma utf16_encode_char_unat:
  "\<not> is_high_surrogate u \<Longrightarrow> \<not> is_low_surrogate u \<Longrightarrow> utf16_encode_char (unat u) = [u]"
  using unsigned_less[of u] by (simp add: utf16_encode_char_def wchar_unat)

text \<open>A run of one code unit outside the surrogate ranges decodes unit by unit.\<close>

lemma utf16_decode_replicate:
  assumes "\<not> is_high_surrogate u" and "\<not> is_low_surrogate u"
  shows "utf16_decode (replicate n u) = Some (replicate n (unat u))"
proof -
  have "utf16_encode (replicate n (unat u)) = replicate n u"
    using assms by (induction n) (simp_all add: utf16_encode_char_unat)
  moreover have "list_all is_scalar (replicate n (unat u))"
    using unat_non_surrogate_scalar[OF assms] by (simp add: list_all_iff)
  ultimately show ?thesis using utf16_decode_encode[of "replicate n (unat u)"] by simp
qed

lemma utf16_decode_append_Some:
  "utf16_decode u1 = Some c1 \<Longrightarrow> utf16_decode u2 = Some c2 \<Longrightarrow> utf16_decode (u1 @ u2) = Some (c1 @ c2)"
  using utf16_decode_inv[of u1 c1] utf16_decode_encode_append[of c1 u2] by auto

text \<open>
  Substituting decoding followed by UTF-8 encoding produces at most three bytes per
  code unit when every substitute is below U+10000: a unit outside the surrogates and
  a substituted one need at most three, a surrogate pair four for its two units.
\<close>

lemma length_utf8_subst_le:
  "(\<forall>u. lone u < 0x10000) \<Longrightarrow> length (utf8_encode (utf16_decode_subst lone us)) \<le> 3 * length us"
proof (induction lone us rule: utf16_decode_subst.induct)
  case (1 lone)
  then show ?case by simp
next
  case (2 lone u us)
  have r: "utf8_len (lone u) \<le> 3" using "2.prems" by (simp add: utf8_len_def)
  have p: "utf8_len (surrogate_pair u v) \<le> 4" for v using utf8_len_bounds by blast
  have s: "utf8_len (unat u) \<le> 3" using unsigned_less[of u] by (simp add: utf8_len_def)
  show ?case
  proof (cases "is_high_surrogate u")
    case hi: True
    show ?thesis
    proof (cases us)
      case Nil
      with hi r show ?thesis by (simp add: length_utf8_encode_char)
    next
      case (Cons v us')
      show ?thesis
      proof (cases "is_low_surrogate v")
        case True
        with hi Cons "2.IH"(1) "2.prems" p[of v] show ?thesis by (simp add: length_utf8_encode_char)
      next
        case False
        with hi Cons have "utf16_decode_subst lone (u # us) = lone u # utf16_decode_subst lone us"
          by simp
        with "2.IH"(2)[OF hi Cons False "2.prems"] r show ?thesis by (simp add: length_utf8_encode_char)
      qed
    qed
  next
    case False
    with "2.IH"(3,4) "2.prems" r s show ?thesis
      by (cases "is_low_surrogate u") (simp_all add: length_utf8_encode_char)
  qed
qed
text \<open>
  Keeping lone surrogates: every value stays below U+110000, a lone surrogate stays a
  non-scalar value, so the UTF-8 form is well-formed exactly when the UTF-16 input is.
\<close>

lemma surrogate_unat_nonscalar:
  "is_high_surrogate u \<or> is_low_surrogate u \<Longrightarrow> \<not> is_scalar (unat u)"
  by (auto simp: is_scalar_def is_high_surrogate_def is_low_surrogate_def)

lemma utf16_decode_subst_bounded:
  "(\<forall>u. lone u \<le> 0x10FFFF) \<Longrightarrow> list_all (\<lambda>c. c \<le> 0x10FFFF) (utf16_decode_subst lone us)"
proof (induction lone us rule: utf16_decode_subst.induct)
  case (1 lone)
  then show ?case by simp
next
  case (2 lone u us)
  have "unat u < 65536" using unsigned_less[of u] by simp
  then have "unat u \<le> 0x10FFFF" by simp
  moreover have "surrogate_pair u v \<le> 0x10FFFF" if "is_high_surrogate u" "is_low_surrogate v" for v
    using surrogate_pair_encode[OF that] unfolding is_scalar_def by linarith
  ultimately show ?case using 2
    by (auto split: list.splits)
qed

lemma utf16_decode_surrogates_bounded: "list_all (\<lambda>c. c \<le> 0x10FFFF) (utf16_decode_surrogates us)"
proof -
  have "\<forall>u. unat (u :: wchar_t) \<le> 0x10FFFF"
  proof
    fix u :: wchar_t
    have "unat u < 65536" using unsigned_less[of u] by simp
    then show "unat u \<le> 0x10FFFF" by simp
  qed
  then show ?thesis by (rule utf16_decode_subst_bounded)
qed

lemma length_utf8_surrogates_le: "length (utf8_encode (utf16_decode_surrogates us)) \<le> 3 * length us"
proof -
  have "\<forall>u. unat (u :: wchar_t) < 0x10000"
  proof
    fix u :: wchar_t
    show "unat u < 0x10000" using unsigned_less[of u] by simp
  qed
  then show ?thesis by (rule length_utf8_subst_le)
qed

lemma utf16_decode_surrogates_nonscalar:
  "utf16_decode us = None \<Longrightarrow> \<not> list_all is_scalar (utf16_decode_surrogates us)"
proof (induction us rule: utf16_decode.induct)
  case 1
  then show ?case by simp
next
  case (2 u us)
  show ?case
  proof (cases "is_high_surrogate u")
    case hi: True
    show ?thesis
    proof (cases us)
      case Nil
      with hi show ?thesis by (simp add: surrogate_unat_nonscalar)
    next
      case (Cons v us')
      with hi "2.prems" "2.IH"(1)[OF hi Cons] show ?thesis
        by (cases "is_low_surrogate v") (simp_all add: surrogate_unat_nonscalar)
    qed
  next
    case nhi: False
    with "2.prems" "2.IH"(2)[OF nhi] show ?thesis
      by (cases "is_low_surrogate u") (simp_all add: surrogate_unat_nonscalar)
  qed
qed

lemma utf8_valid_surrogates:
  "utf8_valid (utf8_encode (utf16_decode_surrogates us)) \<longleftrightarrow> utf16_valid us"
proof (cases "utf16_decode us")
  case None
  then have "utf8_decode (utf8_encode (utf16_decode_surrogates us) @ []) = None"
    by (intro utf8_decode_encode_nonscalar utf16_decode_surrogates_bounded utf16_decode_surrogates_nonscalar)
  with None show ?thesis by (simp add: utf8_valid_def utf16_valid_def)
next
  case (Some cs)
  then have "utf16_decode_surrogates us = cs" by (rule utf16_decode_subst_strict)
  with Some utf16_decode_inv[OF Some] show ?thesis
    by (simp add: utf8_valid_def utf16_valid_def utf8_decode_encode)
qed

end
