(* ===== verification/WinApi.thy ===== *)
theory WinApi
  imports Utf16
begin

text \<open>
  The Win32 facilities that \<open>CharacterEncoder.cpp\<close> calls but does not define, modelled
  from their documented contract for the code page \<open>CP_UTF8\<close> (the only one the code
  passes): the version record that \<open>GetVersionEx\<close> fills, the flag constants, and
  \<open>MultiByteToWideChar\<close> / \<open>WideCharToMultiByte\<close> with their two calling modes
  (a probe with output size 0 that returns the required length, and a conversion into
  a caller buffer). Every failure of these functions is the return value 0, as in C;
  the buffer is returned unchanged then.
\<close>

section \<open>Environment and constants\<close>

text \<open>
  The fields of \<open>OSVERSIONINFOEX\<close> that the code writes or reads; the others
  (platform id, service pack, suite and product type) are zeroed by the code and never
  read.
\<close>

record OSVERSIONINFOEX =
  dwOSVersionInfoSize :: DWORD
  dwMajorVersion :: DWORD
  dwMinorVersion :: DWORD
  dwBuildNumber :: DWORD

text \<open>The record after \<open>memset(&osvi, 0, sizeof(OSVERSIONINFOEX))\<close>.\<close>

definition OSVERSIONINFOEX_zero :: OSVERSIONINFOEX where
  "OSVERSIONINFOEX_zero =
     \<lparr>dwOSVersionInfoSize = 0, dwMajorVersion = 0, dwMinorVersion = 0, dwBuildNumber = 0\<rparr>"

text \<open>
  \<open>sizeof\<close> of the two version records of the ANSI API (the wide-character build
  has larger records and the same protocol).
\<close>

definition sizeof_OSVERSIONINFO :: DWORD where
  "sizeof_OSVERSIONINFO = 148"

definition sizeof_OSVERSIONINFOEX :: DWORD where
  "sizeof_OSVERSIONINFOEX = 156"

text \<open>
  The running system, which the program observes through \<open>GetVersionEx\<close> and through
  the behaviour of the conversion functions: its real version, and whether the
  application manifest declares compatibility with it.
\<close>

record os_env =
  os_major :: DWORD
  os_minor :: DWORD
  os_build :: DWORD
  os_manifested :: bool

text \<open>
  The version \<open>GetVersionEx\<close> reports: from Windows 8.1 (NT 6.3) on, a program whose
  manifest does not declare the running version is told Windows 8 (6.2, build 9200).
\<close>

definition reported_version :: "os_env \<Rightarrow> DWORD \<times> DWORD \<times> DWORD" where
  "reported_version env =
     (if os_manifested env \<or> os_major env < 6 \<or> (os_major env = 6 \<and> os_minor env \<le> 2)
      then (os_major env, os_minor env, os_build env)
      else (6, 2, 9200))"

text \<open>
  \<open>GetVersionEx\<close>: the call fails (returns \<open>FALSE\<close>, record unchanged) unless
  \<open>dwOSVersionInfoSize\<close> is the size of one of the two records; otherwise it fills
  in the reported version and returns \<open>TRUE\<close>.
\<close>

definition GetVersionEx :: "os_env \<Rightarrow> OSVERSIONINFOEX \<Rightarrow> bool \<times> OSVERSIONINFOEX" where
  "GetVersionEx env lpVersionInformation =
     (if dwOSVersionInfoSize lpVersionInformation \<noteq> sizeof_OSVERSIONINFO \<and>
         dwOSVersionInfoSize lpVersionInformation \<noteq> sizeof_OSVERSIONINFOEX
      then (False, lpVersionInformation)
      else case reported_version env of
        (ma, mi, b) \<Rightarrow>
          (True, lpVersionInformation\<lparr>dwMajorVersion := ma, dwMinorVersion := mi,
                                      dwBuildNumber := b\<rparr>))"

definition INT_MAX :: int32 where
  "INT_MAX = 0x7FFFFFFF"

definition MB_ERR_INVALID_CHARS :: DWORD where
  "MB_ERR_INVALID_CHARS = 0x00000008"

definition WC_ERR_INVALID_CHARS :: DWORD where
  "WC_ERR_INVALID_CHARS = 0x00000080"

text \<open>\<open>WC_ERR_INVALID_CHARS\<close> exists from Windows Vista (NT 6.0) on; before, the flag is rejected.\<close>

definition supports_WC_ERR_INVALID_CHARS :: "os_env \<Rightarrow> bool" where
  "supports_WC_ERR_INVALID_CHARS env \<longleftrightarrow> 6 \<le> os_major env"

section \<open>Argument conventions shared by both functions\<close>

text \<open>
  The source length argument: \<open>-1\<close> means a NUL-terminated string whose terminator is
  converted too (\<open>c_str()\<close> always supplies one), a positive count means that many
  elements, anything else is \<open>ERROR_INVALID_PARAMETER\<close>.
\<close>

definition source_units :: "'a::zero list \<Rightarrow> int32 \<Rightarrow> 'a list option" where
  "source_units s n =
     (if sint n = -1 then Some (takeWhile (\<lambda>x. x \<noteq> 0) s @ [0])
      else if 0 < sint n then Some (take (nat (sint n)) s)
      else None)"

text \<open>
  The output protocol: a required length that does not fit the \<open>int\<close> result fails;
  output size 0 returns the required length and writes nothing; a negative size is
  invalid; a buffer too small fails with \<open>ERROR_INSUFFICIENT_BUFFER\<close>; otherwise the
  output is written to the front of the buffer and its length returned.
\<close>

definition write_buffer :: "'a list \<Rightarrow> 'a list \<Rightarrow> int32 \<Rightarrow> int32 \<times> 'a list" where
  "write_buffer out dst cap =
     (let n = length out in
      if sint INT_MAX < int n then (0, dst)
      else if sint cap = 0 then (of_nat n, dst)
      else if sint cap < 0 then (0, dst)
      else if nat (sint cap) < n then (0, dst)
      else (of_nat n, out @ drop n dst))"

section \<open>The conversion functions\<close>

text \<open>
  \<open>MultiByteToWideChar\<close> decodes the source strictly under \<open>MB_ERR_INVALID_CHARS\<close>
  and with substitution without it, then writes the UTF-16 form. This is its contract
  from Windows Vista on; the Windows XP decoder differed on ill-formed input (it dropped
  some ill-formed sequences and accepted encoded surrogates), which is not modelled.
\<close>

definition MultiByteToWideChar ::
  "DWORD \<Rightarrow> byte list \<Rightarrow> int32 \<Rightarrow> wchar_t list \<Rightarrow> int32 \<Rightarrow> int32 \<times> wchar_t list" where
  "MultiByteToWideChar dwFlags lpMultiByteStr cbMultiByte lpWideCharStr cchWideChar =
     (if dwFlags \<noteq> 0 \<and> dwFlags \<noteq> MB_ERR_INVALID_CHARS then (0, lpWideCharStr)
      else case source_units lpMultiByteStr cbMultiByte of
        None \<Rightarrow> (0, lpWideCharStr)
      | Some src \<Rightarrow>
          (case (if dwFlags = MB_ERR_INVALID_CHARS then utf8_decode src
                 else Some (utf8_decode_lenient src)) of
             None \<Rightarrow> (0, lpWideCharStr)
           | Some cps \<Rightarrow> write_buffer (utf16_encode cps) lpWideCharStr cchWideChar))"

text \<open>
  \<open>lpDefaultChar\<close> and \<open>lpUsedDefaultChar\<close> are pointers; \<open>None\<close> is \<open>NULL\<close>.
  For \<open>CP_UTF8\<close> both must be \<open>NULL\<close>, and the flags must be 0 or
  \<open>WC_ERR_INVALID_CHARS\<close> where the platform supports it. Under the flag a lone
  surrogate fails the call. Without it the behaviour depends on the system: from
  Windows Vista on a lone surrogate becomes U+FFFD (documented); before Vista it is
  written in the three-byte form of its own value, so the output is not well-formed
  UTF-8 (the behaviour recorded for Windows XP by the \<open>cp65001\<close> tests of CPython,
  which expect \<open>ED B2 80\<close> for U+DC80 before Vista).
\<close>

definition WideCharToMultiByte ::
  "os_env \<Rightarrow> DWORD \<Rightarrow> wchar_t list \<Rightarrow> int32 \<Rightarrow> byte list \<Rightarrow> int32 \<Rightarrow>
   byte option \<Rightarrow> bool option \<Rightarrow> int32 \<times> byte list" where
  "WideCharToMultiByte env dwFlags lpWideCharStr cchWideChar lpMultiByteStr cbMultiByte
     lpDefaultChar lpUsedDefaultChar =
     (if dwFlags \<noteq> 0 \<and> dwFlags \<noteq> WC_ERR_INVALID_CHARS then (0, lpMultiByteStr)
      else if dwFlags = WC_ERR_INVALID_CHARS \<and> \<not> supports_WC_ERR_INVALID_CHARS env
      then (0, lpMultiByteStr)
      else if lpDefaultChar \<noteq> None \<or> lpUsedDefaultChar \<noteq> None then (0, lpMultiByteStr)
      else case source_units lpWideCharStr cchWideChar of
        None \<Rightarrow> (0, lpMultiByteStr)
      | Some src \<Rightarrow>
          (case (if dwFlags = WC_ERR_INVALID_CHARS then utf16_decode src
                 else if supports_WC_ERR_INVALID_CHARS env then Some (utf16_decode_lenient src)
                 else Some (utf16_decode_surrogates src)) of
             None \<Rightarrow> (0, lpMultiByteStr)
           | Some cps \<Rightarrow> write_buffer (utf8_encode cps) lpMultiByteStr cbMultiByte))"

section \<open>Reading C integers\<close>

lemma sint_INT_MAX [simp]: "sint INT_MAX = 2147483647"
  by (simp add: INT_MAX_def)

lemma sint_of_nat_int32:
  assumes "n \<le> 2147483647"
  shows "sint (of_nat n :: int32) = int n"
proof -
  have "sint (of_nat n :: int32) = signed_take_bit 31 (int n)"
    by (simp add: signed_of_nat)
  also have "\<dots> = int n"
    using assms by (intro signed_take_bit_int_eq_self) simp_all
  finally show ?thesis .
qed

lemma of_nat_int32_eq_0:
  assumes "n \<le> 2147483647" shows "(of_nat n :: int32) = 0 \<longleftrightarrow> n = 0"
proof -
  have u: "unat (of_nat n :: int32) = n" using assms by (simp add: unsigned_of_nat take_bit_nat_eq_self)
  show ?thesis
  proof
    assume "(of_nat n :: int32) = 0"
    with u show "n = 0" by simp
  qed simp
qed

text \<open>A non-negative \<open>int\<close> converted to a \<open>size_t\<close> of at least 32 bits keeps its value.\<close>

lemma unat_scast_of_nat_int32:
  assumes "n \<le> 2147483647" and "32 \<le> LENGTH('a)"
  shows "unat (scast (of_nat n :: int32) :: 'a::len word) = n"
proof -
  have s: "sint (of_nat n :: int32) = int n" using assms(1) by (rule sint_of_nat_int32)
  have "(2::nat) ^ 32 \<le> 2 ^ LENGTH('a)" using assms(2) by (rule power_increasing) simp
  then have lt: "n < 2 ^ LENGTH('a)" using assms(1) by simp
  have "(scast (of_nat n :: int32) :: 'a word) = of_nat n"
    unfolding scast_eq s by simp
  then show ?thesis using lt by (simp add: unat_of_nat_lt)
qed
section \<open>The two-pass protocol\<close>

lemma source_units_pos: "0 < sint n \<Longrightarrow> source_units s n = Some (take (nat (sint n)) s)"
  by (simp add: source_units_def)

text \<open>A probe (output size 0) returns the required length and leaves the buffer alone.\<close>

lemma write_buffer_probe:
  "length out \<le> 2147483647 \<Longrightarrow> write_buffer out dst 0 = (of_nat (length out), dst)"
  by (simp add: write_buffer_def)

text \<open>A buffer of exactly the probed length is filled completely by the conversion.\<close>

lemma write_buffer_fill:
  assumes "length out \<le> 2147483647"
  shows "write_buffer out (replicate (length out) z) (of_nat (length out)) = (of_nat (length out), out)"
proof -
  have "sint (of_nat (length out) :: int32) = int (length out)"
    using assms by (rule sint_of_nat_int32)
  then show ?thesis using assms by (simp add: write_buffer_def Let_def)
qed

lemma write_buffer_too_long:
  "2147483647 < length out \<Longrightarrow> write_buffer out dst cap = (0, dst)"
  by (simp add: write_buffer_def)

text \<open>Probing, allocating exactly the probed size and converting delivers the whole output.\<close>

lemma write_buffer_two_pass:
  assumes "0 < length out" and "length out \<le> 2147483647"
    and "write_buffer out d 0 = (p, d')" and "32 \<le> LENGTH('a)"
  shows "p \<noteq> 0 \<and> write_buffer out (replicate (unat (scast p :: 'a::len word)) z) p = (p, out)"
proof -
  from write_buffer_probe[OF assms(2)] assms(3) have p: "p = of_nat (length out)" by simp
  have "p \<noteq> 0" using p assms(1,2) by (simp add: of_nat_int32_eq_0)
  moreover have "unat (scast p :: 'a word) = length out"
    using p assms(2,4) by (simp add: unat_scast_of_nat_int32)
  ultimately show ?thesis using write_buffer_fill[OF assms(2)] p by simp
qed

text \<open>A probe that succeeds is followed by a conversion that succeeds, into a buffer of the probed size.\<close>

lemma write_buffer_probe_fill:
  assumes "fst (write_buffer out d 0) \<noteq> 0" and "32 \<le> LENGTH('a)"
  shows "fst (write_buffer out (replicate (unat (scast (fst (write_buffer out d 0)) :: 'a::len word)) z)
            (fst (write_buffer out d 0))) = fst (write_buffer out d 0)"
proof -
  have le: "length out \<le> 2147483647"
    using assms(1) by (auto simp: write_buffer_def Let_def split: if_splits)
  have p: "write_buffer out d 0 = (of_nat (length out), d)" by (rule write_buffer_probe[OF le])
  have pos: "0 < length out" using assms(1) p by (cases out) auto
  from write_buffer_two_pass[OF pos le p assms(2)] p show ?thesis by simp
qed

lemma MultiByteToWideChar_two_pass:
  assumes "p = fst (MultiByteToWideChar f s n [] 0)" and "p \<noteq> 0" and "32 \<le> LENGTH('a)"
  shows "fst (MultiByteToWideChar f s n (replicate (unat (scast p :: 'a::len word)) z) p) = p"
  using assms write_buffer_probe_fill
  by (auto simp: MultiByteToWideChar_def split: option.splits if_splits)

lemma WideCharToMultiByte_two_pass:
  assumes "p = fst (WideCharToMultiByte env f s n [] 0 None None)" and "p \<noteq> 0" and "32 \<le> LENGTH('a)"
  shows "fst (WideCharToMultiByte env f s n (replicate (unat (scast p :: 'a::len word)) z) p None None) = p"
  using assms write_buffer_probe_fill
  by (auto simp: WideCharToMultiByte_def split: option.splits if_splits)

lemma MultiByteToWideChar_strict:
  "0 < sint n \<Longrightarrow> MultiByteToWideChar MB_ERR_INVALID_CHARS s n dst cap =
     (case utf8_decode (take (nat (sint n)) s) of
        None \<Rightarrow> (0, dst)
      | Some cps \<Rightarrow> write_buffer (utf16_encode cps) dst cap)"
  by (simp add: MultiByteToWideChar_def source_units_pos)

lemma WideCharToMultiByte_strict:
  "supports_WC_ERR_INVALID_CHARS env \<Longrightarrow> 0 < sint n \<Longrightarrow>
   WideCharToMultiByte env WC_ERR_INVALID_CHARS s n dst cap None None =
     (case utf16_decode (take (nat (sint n)) s) of
        None \<Rightarrow> (0, dst)
      | Some cps \<Rightarrow> write_buffer (utf8_encode cps) dst cap)"
  by (simp add: WideCharToMultiByte_def source_units_pos)

lemma WideCharToMultiByte_pre_vista:
  "\<not> supports_WC_ERR_INVALID_CHARS env \<Longrightarrow> 0 < sint n \<Longrightarrow>
   WideCharToMultiByte env 0 s n dst cap None None =
     write_buffer (utf8_encode (utf16_decode_surrogates (take (nat (sint n)) s))) dst cap"
  by (simp add: WideCharToMultiByte_def source_units_pos WC_ERR_INVALID_CHARS_def)

section \<open>The version query\<close>

text \<open>A record whose size field names \<open>OSVERSIONINFOEX\<close> is filled in and the call succeeds.\<close>

lemma GetVersionEx_sized:
  "dwOSVersionInfoSize r = sizeof_OSVERSIONINFOEX \<Longrightarrow>
   GetVersionEx env r =
     (True, r\<lparr>dwMajorVersion := fst (reported_version env),
              dwMinorVersion := fst (snd (reported_version env)),
              dwBuildNumber := snd (snd (reported_version env))\<rparr>)"
  by (simp add: GetVersionEx_def split: prod.split)

lemma GetVersionEx_unsized:
  "dwOSVersionInfoSize r \<noteq> sizeof_OSVERSIONINFO \<Longrightarrow> dwOSVersionInfoSize r \<noteq> sizeof_OSVERSIONINFOEX \<Longrightarrow>
   GetVersionEx env r = (False, r)"
  by (simp add: GetVersionEx_def)

text \<open>The reported version is at least 6 exactly when the real one is: the lie only moves 6.3 and later to 6.2.\<close>

lemma reported_major_ge_6: "6 \<le> fst (reported_version env) \<longleftrightarrow> 6 \<le> os_major env"
  by (auto simp: reported_version_def not_less)

text \<open>\<open>WideCharToMultiByte\<close> sees the running system only through its support of \<open>WC_ERR_INVALID_CHARS\<close>.\<close>

lemma WideCharToMultiByte_env:
  assumes "supports_WC_ERR_INVALID_CHARS env1 = supports_WC_ERR_INVALID_CHARS env2"
  shows "WideCharToMultiByte env1 = WideCharToMultiByte env2"
  by (intro ext) (simp only: WideCharToMultiByte_def assms)

end
