(* ===== verification/CharacterEncoder.thy ===== *)
theory CharacterEncoder
  imports WinApi
begin

text \<open>
  The class \<open>CharacterEncoder\<close> of \<open>src/inc/CharacterEncoder.h\<close> and its Windows
  implementation \<open>src/src/windows/CharacterEncoder.cpp\<close>: the length guard
  \<open>stringLengthValidator\<close>, the static methods \<open>utf8ToUtf16\<close> and \<open>utf16ToUtf8\<close>
  with every early return and every \<open>throw\<close>, and the version test that selects the
  flags of \<open>utf16ToUtf8\<close>. A \<open>std::string\<close> is a \<open>byte list\<close>, a
  \<open>std::wstring\<close> a \<open>wchar_t list\<close>; a thrown \<open>std::exception\<close> is \<open>Inl\<close> of
  \<open>encoder_exception\<close>, a returned string \<open>Inr\<close>. The running system is the
  parameter \<open>env\<close> of \<open>utf16ToUtf8\<close>, observed through \<open>GetVersionEx\<close> and
  \<open>WideCharToMultiByte\<close>. The methods are defined for a \<open>size_t\<close> of any width
  (\<open>utf8ToUtf16_target\<close>, \<open>utf16ToUtf8_target\<close>); \<open>utf8ToUtf16\<close> and
  \<open>utf16ToUtf8\<close> are their x64 builds.
\<close>

section \<open>Data\<close>

text \<open>The two messages the code throws, one per direction.\<close>

datatype encoder_exception =
    Utf8Error   \<comment> \<open>\<open>"Error processing the UTF-8 string"\<close>\<close>
  | Utf16Error  \<comment> \<open>\<open>"Error processing the UTF-16 string"\<close>\<close>

text \<open>\<open>s.length()\<close> of a standard string, as a \<open>size_t\<close> of the target's width.\<close>

definition str_length :: "'a list \<Rightarrow> 's::len word" where
  "str_length s = of_nat (length s)"

section \<open>The length guard\<close>

text \<open>
  \<open>stringLengthValidator<T>\<close>: \<open>INT_MAX - 1\<close> is an \<open>int\<close> converted to the unsigned
  \<open>size_type\<close> for the comparison (\<open>scast\<close>), and the cast back to \<open>int\<close> keeps the low
  32 bits (\<open>ucast\<close>). The width of \<open>size_type\<close> is left open: 64 bits on the x64
  target, 32 bits on the x86 one.
\<close>

definition stringLengthValidator :: "'a::len word \<Rightarrow> int32" where
  "stringLengthValidator stringLength =
     (if stringLength \<le> scast (INT_MAX - 1) then ucast stringLength
      else INT_MAX - 1)"

section \<open>UTF-8 to UTF-16\<close>

text \<open>
  The probe passes \<open>NULL\<close> and size 0 (modelled as the empty buffer); the buffer of the
  second pass is \<open>std::vector<wchar_t>(utf16Length, 0)\<close>, whose size is the probed
  \<open>int\<close> converted to \<open>size_type\<close>.
\<close>

definition utf8ToUtf16_target :: "'s::len itself \<Rightarrow> byte list \<Rightarrow> encoder_exception + wchar_t list" where
  "utf8ToUtf16_target (size_t :: 's itself) utf8String =
     (if utf8String = [] then Inr []
      else
        let utf8Length = stringLengthValidator (str_length utf8String :: 's word) in
        case MultiByteToWideChar MB_ERR_INVALID_CHARS utf8String utf8Length [] 0 of
          (utf16Length, _) \<Rightarrow>
            if utf16Length = 0 then Inl Utf8Error
            else
              let utf16StringBuffer = replicate (unat (scast utf16Length :: 's word)) 0 in
              case MultiByteToWideChar MB_ERR_INVALID_CHARS utf8String utf8Length
                     utf16StringBuffer utf16Length of
                (result, utf16StringBuffer') \<Rightarrow>
                  if result = 0 then Inl Utf8Error else Inr utf16StringBuffer')"

text \<open>The method as built for the x64 target, whose \<open>size_t\<close> has 64 bits.\<close>

definition utf8ToUtf16 :: "byte list \<Rightarrow> encoder_exception + wchar_t list" where
  "utf8ToUtf16 = utf8ToUtf16_target TYPE(64)"

section \<open>UTF-16 to UTF-8\<close>

text \<open>
  The version query of \<open>utf16ToUtf8\<close>: the record is zeroed, its size field set, and
  \<open>GetVersionEx\<close> called; its \<open>BOOL\<close> result is ignored, so the record is what
  the call left, filled in or still zeroed.
\<close>

definition utf16ToUtf8_osvi :: "os_env \<Rightarrow> OSVERSIONINFOEX" where
  "utf16ToUtf8_osvi env =
     (let osvi = OSVERSIONINFOEX_zero\<lparr>dwOSVersionInfoSize := sizeof_OSVERSIONINFOEX\<rparr>
      in snd (GetVersionEx env osvi))"

text \<open>The version test as written: \<open>dwMinorVersion\<close> is a \<open>DWORD\<close>, so \<open>\<ge> 0\<close> always holds.\<close>

definition isWindowsVistaOrGreater :: "OSVERSIONINFOEX \<Rightarrow> bool" where
  "isWindowsVistaOrGreater osvi \<longleftrightarrow>
     dwMajorVersion osvi > 6 \<or> (dwMajorVersion osvi = 6 \<and> dwMinorVersion osvi \<ge> 0)"

definition utf16ToUtf8_flags :: "OSVERSIONINFOEX \<Rightarrow> DWORD" where
  "utf16ToUtf8_flags osvi = (if isWindowsVistaOrGreater osvi then WC_ERR_INVALID_CHARS else 0)"

definition utf16ToUtf8_target ::
  "'s::len itself \<Rightarrow> os_env \<Rightarrow> wchar_t list \<Rightarrow> encoder_exception + byte list" where
  "utf16ToUtf8_target (size_t :: 's itself) env utf16String =
     (if utf16String = [] then Inr []
      else
        let osvi = utf16ToUtf8_osvi env;
            flags = utf16ToUtf8_flags osvi;
            utf16Length = stringLengthValidator (str_length utf16String :: 's word) in
        case WideCharToMultiByte env flags utf16String utf16Length [] 0 None None of
          (utf8Length, _) \<Rightarrow>
            if utf8Length = 0 then Inl Utf16Error
            else
              let utf8StringBuffer = replicate (unat (scast utf8Length :: 's word)) 0 in
              case WideCharToMultiByte env flags utf16String utf16Length
                     utf8StringBuffer utf8Length None None of
                (result, utf8StringBuffer') \<Rightarrow>
                  if result = 0 then Inl Utf16Error else Inr utf8StringBuffer')"

definition utf16ToUtf8 :: "os_env \<Rightarrow> wchar_t list \<Rightarrow> encoder_exception + byte list" where
  "utf16ToUtf8 = utf16ToUtf8_target TYPE(64)"

section \<open>Abstract specification\<close>

text \<open>
  What the two methods promise, stated on code points: the input, cut to its first
  \<open>INT_MAX - 1\<close> elements, is decoded (strictly for UTF-8; for UTF-16 strictly when
  the running system is Windows Vista or later, whatever version \<open>GetVersionEx\<close>
  reports; before it, lone surrogates are kept and written in their three-byte form,
  as the Win32 conversion without its strict flag does there) and re-encoded; a result
  whose length does not fit an \<open>int\<close> is an error.
\<close>

definition utf8ToUtf16_spec :: "byte list \<Rightarrow> encoder_exception + wchar_t list" where
  "utf8ToUtf16_spec s =
     (if s = [] then Inr []
      else case utf8_decode (take 2147483646 s) of
             None \<Rightarrow> Inl Utf8Error
           | Some cps \<Rightarrow> Inr (utf16_encode cps))"

definition utf16ToUtf8_spec :: "os_env \<Rightarrow> wchar_t list \<Rightarrow> encoder_exception + byte list" where
  "utf16ToUtf8_spec env u =
     (if u = [] then Inr []
      else case (if 6 \<le> os_major env then utf16_decode (take 2147483646 u)
                 else Some (utf16_decode_surrogates (take 2147483646 u))) of
             None \<Rightarrow> Inl Utf16Error
           | Some cps \<Rightarrow>
               if 2147483647 < length (utf8_encode cps) then Inl Utf16Error
               else Inr (utf8_encode cps))"

section \<open>Facts on the length guard\<close>

lemma unat_scast_INT_MAX_minus_1:
  assumes "32 \<le> LENGTH('a)"
  shows "unat (scast (INT_MAX - 1) :: 'a::len word) = 2147483646"
proof -
  have s: "sint (INT_MAX - 1) = 2147483646" by (simp add: INT_MAX_def)
  have "(2::nat) ^ 32 \<le> 2 ^ LENGTH('a)" using assms by (rule power_increasing) simp
  then have lt: "2147483646 < (2::nat) ^ LENGTH('a)" by simp
  have "(scast (INT_MAX - 1) :: 'a word) = of_nat 2147483646" unfolding scast_eq s by simp
  then show ?thesis using lt by (simp add: take_bit_nat_eq_self)
qed

lemma INT_MAX_minus_1: "INT_MAX - 1 = (of_nat 2147483646 :: int32)"
  by (simp add: INT_MAX_def)

lemma ucast_size_type_small:
  assumes "unat (l :: 'a::len word) \<le> 2147483646"
  shows "(ucast l :: int32) = of_nat (unat l)"
proof -
  have "unat (ucast l :: int32) = unat l"
    using assms by (simp add: unsigned_ucast_eq take_bit_nat_eq_self)
  moreover have "unat (of_nat (unat l) :: int32) = unat l"
    using assms by (intro unat_of_nat_lt) simp
  ultimately show ?thesis by (simp only: word_unat_eq_iff)
qed

lemma stringLengthValidator_min:
  assumes "32 \<le> LENGTH('a)"
  shows "stringLengthValidator (l :: 'a::len word) = of_nat (min (unat l) 2147483646)"
proof (cases "unat l \<le> 2147483646")
  case True
  then have "l \<le> scast (INT_MAX - 1)"
    by (simp add: unat_scast_INT_MAX_minus_1[OF assms] word_le_nat_alt)
  then have "stringLengthValidator l = ucast l" by (simp add: stringLengthValidator_def)
  also have "\<dots> = of_nat (unat l)" using True by (rule ucast_size_type_small)
  finally show ?thesis using True by (simp add: min_def)
next
  case False
  then have "\<not> l \<le> scast (INT_MAX - 1)"
    by (simp add: unat_scast_INT_MAX_minus_1[OF assms] word_le_nat_alt)
  then have "stringLengthValidator l = INT_MAX - 1" by (simp add: stringLengthValidator_def)
  then show ?thesis using False by (simp add: min_def INT_MAX_minus_1)
qed

section \<open>Both methods against the specification\<close>

lemma validator_str_length:
  assumes "length s < 2 ^ LENGTH('s)" and "32 \<le> LENGTH('s)"
  shows "stringLengthValidator (str_length s :: 's::len word) = of_nat (min (length s) 2147483646)"
proof -
  have "unat (str_length s :: 's word) = length s"
    unfolding str_length_def using assms(1) by (rule unat_of_nat_lt)
  then show ?thesis by (simp add: stringLengthValidator_min[OF assms(2)])
qed

lemma validator_length_pos:
  assumes "s \<noteq> []"
  shows "0 < sint (of_nat (min (length s) 2147483646) :: int32)
       \<and> nat (sint (of_nat (min (length s) 2147483646) :: int32)) = min (length s) 2147483646"
proof -
  have "sint (of_nat (min (length s) 2147483646) :: int32) = int (min (length s) 2147483646)"
    by (rule sint_of_nat_int32) simp
  then show ?thesis using assms by simp
qed

lemma take_min_length: "take (min (length s) n) s = take n s"
  by (simp add: min_def)

lemma utf8ToUtf16_target_eq_spec:
  assumes "32 \<le> LENGTH('s)" and "length s < 2 ^ LENGTH('s)"
  shows "utf8ToUtf16_target TYPE('s::len) s = utf8ToUtf16_spec s"
proof (cases "s = []")
  case True
  then show ?thesis by (simp add: utf8ToUtf16_target_def utf8ToUtf16_spec_def)
next
  case False
  define k where "k = min (length s) 2147483646"
  have v: "stringLengthValidator (str_length s :: 's word) = of_nat k"
    unfolding k_def using assms(2,1) by (rule validator_str_length)
  have mb: "MultiByteToWideChar MB_ERR_INVALID_CHARS s (of_nat k) d cap =
     (case utf8_decode (take 2147483646 s) of None \<Rightarrow> (0, d)
      | Some cps \<Rightarrow> write_buffer (utf16_encode cps) d cap)" for d cap
    using validator_length_pos[OF False] unfolding k_def[symmetric]
    by (simp add: MultiByteToWideChar_strict k_def take_min_length)
  show ?thesis
  proof (cases "utf8_decode (take 2147483646 s)")
    case None
    with False show ?thesis by (simp add: utf8ToUtf16_target_def utf8ToUtf16_spec_def v mb)
  next
    case (Some cps)
    define out where "out = utf16_encode cps"
    have "take 2147483646 s \<noteq> []" using False by simp
    then have "cps \<noteq> []" using Some by (auto simp: utf8_decode_inv dest: utf8_decode_inv)
    then have pos: "0 < length out" by (simp add: out_def)
    have "length out \<le> length (take 2147483646 s)"
      unfolding out_def by (rule utf8_decode_utf16_length[OF Some])
    then have le: "length out \<le> 2147483647" by simp
    obtain p d' where probe: "write_buffer out [] 0 = (p, d')" by fastforce
    from write_buffer_two_pass[OF pos le probe assms(1)] have "p \<noteq> 0"
      and fill: "write_buffer out (replicate (unat (scast p :: 's word)) 0) p = (p, out)" by auto
    with False Some probe show ?thesis
      by (simp add: utf8ToUtf16_target_def utf8ToUtf16_spec_def v mb out_def[symmetric])
  qed
qed

lemma utf8ToUtf16_eq_spec:
  assumes "length s < 2 ^ 64"
  shows "utf8ToUtf16 s = utf8ToUtf16_spec s"
  using utf8ToUtf16_target_eq_spec[where 's = 64] assms by (simp add: utf8ToUtf16_def)


lemma isWindowsVistaOrGreater_iff: "isWindowsVistaOrGreater osvi \<longleftrightarrow> 6 \<le> dwMajorVersion osvi"
  by (auto simp: isWindowsVistaOrGreater_def)

lemma utf16ToUtf8_osvi_eq:
  "utf16ToUtf8_osvi env =
     \<lparr>dwOSVersionInfoSize = sizeof_OSVERSIONINFOEX, dwMajorVersion = fst (reported_version env),
      dwMinorVersion = fst (snd (reported_version env)),
      dwBuildNumber = snd (snd (reported_version env))\<rparr>"
  by (simp add: utf16ToUtf8_osvi_def GetVersionEx_sized OSVERSIONINFOEX_zero_def)

lemma utf16ToUtf8_osvi_vista: "isWindowsVistaOrGreater (utf16ToUtf8_osvi env) \<longleftrightarrow> 6 \<le> os_major env"
  by (simp add: utf16ToUtf8_osvi_eq isWindowsVistaOrGreater_iff reported_major_ge_6)

lemma utf16ToUtf8_flags_osvi:
  "utf16ToUtf8_flags (utf16ToUtf8_osvi env) =
     (if supports_WC_ERR_INVALID_CHARS env then WC_ERR_INVALID_CHARS else 0)"
  by (simp add: utf16ToUtf8_flags_def utf16ToUtf8_osvi_vista supports_WC_ERR_INVALID_CHARS_def)

lemma wc_call:
  assumes "u \<noteq> []" and "length u < 2 ^ LENGTH('s)" and "32 \<le> LENGTH('s)"
  shows "WideCharToMultiByte env (utf16ToUtf8_flags (utf16ToUtf8_osvi env)) u
           (stringLengthValidator (str_length u :: 's::len word)) d cap None None =
     (case (if 6 \<le> os_major env then utf16_decode (take 2147483646 u)
            else Some (utf16_decode_surrogates (take 2147483646 u))) of
        None \<Rightarrow> (0, d)
      | Some cps \<Rightarrow> write_buffer (utf8_encode cps) d cap)"
proof -
  define k where "k = min (length u) 2147483646"
  have v: "stringLengthValidator (str_length u :: 's word) = of_nat k"
    unfolding k_def using assms(2,3) by (rule validator_str_length)
  have p: "0 < sint (of_nat k :: int32)" "nat (sint (of_nat k :: int32)) = k"
    using validator_length_pos[OF assms(1)] unfolding k_def by auto
  show ?thesis
  proof (cases "6 \<le> os_major env")
    case True
    then have "supports_WC_ERR_INVALID_CHARS env" by (simp add: supports_WC_ERR_INVALID_CHARS_def)
    with True p show ?thesis
      by (simp add: v utf16ToUtf8_flags_def utf16ToUtf8_osvi_vista WideCharToMultiByte_strict
          k_def take_min_length)
  next
    case False
    then have "\<not> supports_WC_ERR_INVALID_CHARS env" by (simp add: supports_WC_ERR_INVALID_CHARS_def)
    with False p show ?thesis
      by (simp add: v utf16ToUtf8_flags_def utf16ToUtf8_osvi_vista WideCharToMultiByte_pre_vista
          k_def take_min_length)
  qed
qed

lemma utf16ToUtf8_target_eq_spec:
  assumes "32 \<le> LENGTH('s)" and "length u < 2 ^ LENGTH('s)"
  shows "utf16ToUtf8_target TYPE('s::len) env u = utf16ToUtf8_spec env u"
proof (cases "u = []")
  case True
  then show ?thesis by (simp add: utf16ToUtf8_target_def utf16ToUtf8_spec_def)
next
  case False
  note call = wc_call[OF False assms(2,1)]
  define dec where "dec = (if 6 \<le> os_major env then utf16_decode (take 2147483646 u)
                           else Some (utf16_decode_surrogates (take 2147483646 u)))"
  have ne: "take 2147483646 u \<noteq> []" using False by simp
  show ?thesis
  proof (cases dec)
    case None
    with False show ?thesis
      by (simp add: utf16ToUtf8_target_def utf16ToUtf8_spec_def call dec_def[symmetric] Let_def)
  next
    case (Some cps)
    define out where "out = utf8_encode cps"
    have "cps \<noteq> []" using Some ne utf16_decode_Some_nonempty
      by (auto simp: dec_def split: if_splits)
    then have pos: "0 < length out" by (simp add: out_def)
    show ?thesis
    proof (cases "2147483647 < length out")
      case True
      with False Some show ?thesis
        by (simp add: utf16ToUtf8_target_def utf16ToUtf8_spec_def call dec_def[symmetric] Let_def
            write_buffer_too_long out_def[symmetric])
    next
      case False': False
      then have le: "length out \<le> 2147483647" by simp
      obtain p d' where probe: "write_buffer out [] 0 = (p, d')" by fastforce
      from write_buffer_two_pass[OF pos le probe assms(1)] have "p \<noteq> 0"
        and fill: "write_buffer out (replicate (unat (scast p :: 's word)) 0) p = (p, out)" by auto
      with False False' Some probe show ?thesis
        by (simp add: utf16ToUtf8_target_def utf16ToUtf8_spec_def call dec_def[symmetric] Let_def
            out_def[symmetric])
    qed
  qed
qed

lemma utf16ToUtf8_eq_spec:
  assumes "length u < 2 ^ 64"
  shows "utf16ToUtf8 env u = utf16ToUtf8_spec env u"
  using utf16ToUtf8_target_eq_spec[where 's = 64] assms by (simp add: utf16ToUtf8_def)

section \<open>Well-formed input within the length guard\<close>

lemma utf8ToUtf16_valid:
  assumes "utf8_decode s = Some cps" and "length s \<le> 2147483646"
  shows "utf8ToUtf16 s = Inr (utf16_encode cps)"
proof -
  have "length s < 2 ^ 64" using assms(2) by simp
  then have "utf8ToUtf16 s = utf8ToUtf16_spec s" by (rule utf8ToUtf16_eq_spec)
  moreover have "take 2147483646 s = s" using assms(2) by simp
  ultimately show ?thesis using assms(1) by (cases "s = []") (auto simp: utf8ToUtf16_spec_def)
qed

lemma utf16ToUtf8_valid:
  assumes "utf16_decode u = Some cps" and "length u \<le> 2147483646"
    and "length (utf8_encode cps) \<le> 2147483647"
  shows "utf16ToUtf8 env u = Inr (utf8_encode cps)"
proof -
  have "length u < 2 ^ 64" using assms(2) by simp
  then have "utf16ToUtf8 env u = utf16ToUtf8_spec env u" by (rule utf16ToUtf8_eq_spec)
  moreover have "take 2147483646 u = u" using assms(2) by simp
  moreover have "utf16_decode_surrogates u = cps" using assms(1) by (rule utf16_decode_subst_strict)
  ultimately show ?thesis using assms(1,3) by (cases "u = []") (auto simp: utf16ToUtf8_spec_def)
qed

text \<open>
  Before Vista nothing is rejected: every input within a third of the guard is
  converted, lone surrogates written in their three-byte form.
\<close>

lemma utf16ToUtf8_pre_vista:
  assumes "\<not> supports_WC_ERR_INVALID_CHARS env" and "length u \<le> 715827882"
  shows "utf16ToUtf8 env u = Inr (utf8_encode (utf16_decode_surrogates u))"
proof -
  have "length u < 2 ^ 64" using assms(2) by simp
  then have "utf16ToUtf8 env u = utf16ToUtf8_spec env u" by (rule utf16ToUtf8_eq_spec)
  moreover have "take 2147483646 u = u" using assms(2) by simp
  moreover have "length (utf8_encode (utf16_decode_surrogates u)) \<le> 2147483647"
    using length_utf8_surrogates_le[of u] assms(2) by simp
  ultimately show ?thesis using assms(1)
    by (cases "u = []") (simp_all add: utf16ToUtf8_spec_def supports_WC_ERR_INVALID_CHARS_def)
qed

section \<open>Properties of the component\<close>

text \<open>
  C1 (refinement): on every target whose \<open>size_t\<close> has at least 32 bits (x86 and
  x64; \<open>utf8ToUtf16\<close> is the x64 build) and for every string whose length fits that
  \<open>size_t\<close>, the method returns exactly what its specification promises: the empty
  string for the empty input, otherwise the UTF-16 encoding of the strictly decoded
  first \<open>INT_MAX - 1\<close> bytes, or the exception when those bytes are ill-formed.
\<close>

theorem utf8ToUtf16_refines:
  assumes "32 \<le> LENGTH('s)" and "length s < 2 ^ LENGTH('s)"
  shows "utf8ToUtf16_target TYPE('s::len) s = utf8ToUtf16_spec s"
  using assms by (rule utf8ToUtf16_target_eq_spec)

theorem utf8ToUtf16_refines_witness:
  "32 \<le> LENGTH(32) \<and> length [0xC3, 0xA9 :: byte] < 2 ^ LENGTH(32) \<and>
   utf8ToUtf16_target TYPE(32) [0xC3, 0xA9] = utf8ToUtf16_spec [0xC3, 0xA9]"
  using utf8ToUtf16_refines[where 's = 32, of "[0xC3, 0xA9]"] by simp

text \<open>
  C2 (refinement): on every target whose \<open>size_t\<close> has at least 32 bits and for every
  string whose length fits it, \<open>utf16ToUtf8\<close> returns what its specification promises
  on the running system \<open>env\<close>: strict decoding of the first \<open>INT_MAX - 1\<close> code
  units from Windows Vista on; before it, no rejection, with each lone surrogate
  written in its three-byte form (the behaviour of the Win32 conversion without the
  strict flag there); and the exception when the
  input is rejected or its UTF-8 form is longer than \<open>INT_MAX\<close> bytes.
\<close>

theorem utf16ToUtf8_refines:
  assumes "32 \<le> LENGTH('s)" and "length u < 2 ^ LENGTH('s)"
  shows "utf16ToUtf8_target TYPE('s::len) env u = utf16ToUtf8_spec env u"
  using assms by (rule utf16ToUtf8_target_eq_spec)

theorem utf16ToUtf8_refines_witness:
  "32 \<le> LENGTH(32) \<and> length [0xD83D, 0xDE00 :: wchar_t] < 2 ^ LENGTH(32) \<and>
   utf16ToUtf8_target TYPE(32) \<lparr>os_major = 10, os_minor = 0, os_build = 19045, os_manifested = False\<rparr> [0xD83D, 0xDE00] =
   utf16ToUtf8_spec \<lparr>os_major = 10, os_minor = 0, os_build = 19045, os_manifested = False\<rparr> [0xD83D, 0xDE00]"
  using utf16ToUtf8_refines[where 's = 32, of "[0xD83D, 0xDE00]"] by simp

text \<open>
  C9 (bounds): on every target whose \<open>size_t\<close> has at least 32 bits (x86 and x64),
  \<open>stringLengthValidator\<close> returns, read as a signed \<open>int\<close>, exactly the length
  clamped to \<open>INT_MAX - 1\<close>: never negative, never \<open>INT_MAX\<close>, and unchanged below
  the bound.
\<close>

theorem stringLengthValidator_clamp:
  assumes "32 \<le> LENGTH('a)"
  shows "sint (stringLengthValidator (l :: 'a::len word)) = int (min (unat l) 2147483646)"
  unfolding stringLengthValidator_min[OF assms] by (rule sint_of_nat_int32) simp

theorem stringLengthValidator_clamp_witness:
  "32 \<le> LENGTH(32) \<and>
   sint (stringLengthValidator (0xFFFFFFFF :: 32 word)) = int (min (unat (0xFFFFFFFF :: 32 word)) 2147483646)"
  using stringLengthValidator_clamp[where 'a = 32, of "0xFFFFFFFF"] by simp


text \<open>
  C14 (safety): the version query of \<open>utf16ToUtf8\<close> always succeeds, since the code
  sets \<open>dwOSVersionInfoSize\<close> before the call, and the flags chosen from its answer
  are \<open>WC_ERR_INVALID_CHARS\<close> exactly on the systems that support it and 0 on the
  others, also when \<open>GetVersionEx\<close> reports Windows 8 for Windows 8.1 or later.
  So the conversion is never refused for its flags, and the unchecked result of
  \<open>GetVersionEx\<close> and the vacuous test on \<open>dwMinorVersion\<close> are harmless.
\<close>

theorem utf16ToUtf8_flags_platform:
  "fst (GetVersionEx env (OSVERSIONINFOEX_zero\<lparr>dwOSVersionInfoSize := sizeof_OSVERSIONINFOEX\<rparr>)) \<and>
   utf16ToUtf8_flags (utf16ToUtf8_osvi env) =
     (if supports_WC_ERR_INVALID_CHARS env then WC_ERR_INVALID_CHARS else 0)"
  by (simp add: GetVersionEx_sized OSVERSIONINFOEX_zero_def utf16ToUtf8_flags_osvi)

text \<open>
  C18 (safety): on every target with a \<open>size_t\<close> of at least 32 bits, once the probe
  of \<open>utf8ToUtf16\<close> has returned a non-zero length, the conversion into the buffer
  allocated from it succeeds. So the second \<open>throw\<close> (lines 97-100) is unreachable
  under the contract of \<open>MultiByteToWideChar\<close>: the buffer is never too short.
\<close>

theorem utf8ToUtf16_conversion_pass_succeeds:
  assumes "32 \<le> LENGTH('s)" and "utf8String \<noteq> []"
    and "fst (MultiByteToWideChar MB_ERR_INVALID_CHARS utf8String
               (stringLengthValidator (str_length utf8String :: 's::len word)) [] 0) \<noteq> 0"
  shows "\<exists>w. utf8ToUtf16_target TYPE('s) utf8String = Inr w"
proof -
  define n where "n = stringLengthValidator (str_length utf8String :: 's word)"
  obtain p d where probe: "MultiByteToWideChar MB_ERR_INVALID_CHARS utf8String n [] 0 = (p, d)"
    by fastforce
  have p: "p \<noteq> 0" using assms(3) probe unfolding n_def by simp
  obtain r w where conv: "MultiByteToWideChar MB_ERR_INVALID_CHARS utf8String n
      (replicate (unat (scast p :: 's word)) 0) p = (r, w)" by fastforce
  have "fst (MultiByteToWideChar MB_ERR_INVALID_CHARS utf8String n
      (replicate (unat (scast p :: 's word)) 0) p) = p"
    by (rule MultiByteToWideChar_two_pass[OF _ p assms(1)]) (simp add: probe)
  then have "r = p" using conv by simp
  with assms(2) probe conv p show ?thesis by (simp add: utf8ToUtf16_target_def n_def[symmetric])
qed

theorem utf8ToUtf16_conversion_pass_succeeds_witness:
  "32 \<le> LENGTH(32) \<and> [0x41 :: byte] \<noteq> [] \<and>
   fst (MultiByteToWideChar MB_ERR_INVALID_CHARS [0x41]
          (stringLengthValidator (str_length [0x41 :: byte] :: 32 word)) [] 0) \<noteq> 0 \<and>
   (\<exists>w. utf8ToUtf16_target TYPE(32) [0x41] = Inr w)"
proof -
  have v: "stringLengthValidator (str_length [0x41 :: byte] :: 32 word) = 1"
    using validator_str_length[where 's = 32, of "[0x41 :: byte]"] by simp
  have "fst (MultiByteToWideChar MB_ERR_INVALID_CHARS [0x41] 1 [] 0) \<noteq> 0"
    by (simp add: MultiByteToWideChar_def source_units_def write_buffer_def codec_eval)
  then show ?thesis using utf8ToUtf16_conversion_pass_succeeds[where 's = 32, of "[0x41]"] v by simp
qed

text \<open>
  C19 (safety): likewise in \<open>utf16ToUtf8\<close>, on every such target and every system:
  after a successful probe the conversion pass succeeds, and the \<open>throw\<close> of lines
  194-197 is unreachable under the contract of \<open>WideCharToMultiByte\<close>.
\<close>

theorem utf16ToUtf8_conversion_pass_succeeds:
  assumes "32 \<le> LENGTH('s)" and "utf16String \<noteq> []"
    and "fst (WideCharToMultiByte env (utf16ToUtf8_flags (utf16ToUtf8_osvi env)) utf16String
               (stringLengthValidator (str_length utf16String :: 's::len word)) [] 0 None None) \<noteq> 0"
  shows "\<exists>s. utf16ToUtf8_target TYPE('s) env utf16String = Inr s"
proof -
  define n where "n = stringLengthValidator (str_length utf16String :: 's word)"
  define f where "f = utf16ToUtf8_flags (utf16ToUtf8_osvi env)"
  obtain p d where probe: "WideCharToMultiByte env f utf16String n [] 0 None None = (p, d)"
    by fastforce
  have p: "p \<noteq> 0" using assms(3) probe unfolding n_def f_def by simp
  obtain r w where conv: "WideCharToMultiByte env f utf16String n
      (replicate (unat (scast p :: 's word)) 0) p None None = (r, w)" by fastforce
  have "fst (WideCharToMultiByte env f utf16String n
      (replicate (unat (scast p :: 's word)) 0) p None None) = p"
    by (rule WideCharToMultiByte_two_pass[OF _ p assms(1)]) (simp add: probe)
  then have "r = p" using conv by simp
  with assms(2) probe conv p show ?thesis
    by (simp add: utf16ToUtf8_target_def Let_def n_def[symmetric] f_def[symmetric])
qed

theorem utf16ToUtf8_conversion_pass_succeeds_witness:
  "32 \<le> LENGTH(32) \<and> [0x41 :: wchar_t] \<noteq> [] \<and>
   fst (WideCharToMultiByte \<lparr>os_major = 10, os_minor = 0, os_build = 19045, os_manifested = False\<rparr>
     (utf16ToUtf8_flags (utf16ToUtf8_osvi \<lparr>os_major = 10, os_minor = 0, os_build = 19045, os_manifested = False\<rparr>))
     [0x41] (stringLengthValidator (str_length [0x41 :: wchar_t] :: 32 word)) [] 0 None None) \<noteq> 0 \<and>
   (\<exists>s. utf16ToUtf8_target TYPE(32) \<lparr>os_major = 10, os_minor = 0, os_build = 19045, os_manifested = False\<rparr> [0x41] = Inr s)"
proof -
  have v: "stringLengthValidator (str_length [0x41 :: wchar_t] :: 32 word) = 1"
    using validator_str_length[where 's = 32, of "[0x41 :: wchar_t]"] by simp
  have "fst (WideCharToMultiByte \<lparr>os_major = 10, os_minor = 0, os_build = 19045, os_manifested = False\<rparr>
     (utf16ToUtf8_flags (utf16ToUtf8_osvi \<lparr>os_major = 10, os_minor = 0, os_build = 19045, os_manifested = False\<rparr>))
     [0x41] 1 [] 0 None None) \<noteq> 0"
    by (simp add: WideCharToMultiByte_def source_units_def write_buffer_def utf16ToUtf8_flags_def
        utf16ToUtf8_osvi_vista supports_WC_ERR_INVALID_CHARS_def codec_eval)
  then show ?thesis
    using utf16ToUtf8_conversion_pass_succeeds[where 's = 32, of "[0x41]" "\<lparr>os_major = 10, os_minor = 0, os_build = 19045, os_manifested = False\<rparr>"] v
    by simp
qed

text \<open>
  C20 (safety): \<open>utf16ToUtf8\<close> depends on the running system only through whether it
  supports \<open>WC_ERR_INVALID_CHARS\<close>: two systems that agree on that give the same
  result for every input, whatever their minor version, build number or manifest,
  e.g. Windows 10 and an unmanifested program on Windows 8.1 (told 6.2).
\<close>

theorem utf16ToUtf8_env_independent:
  assumes "supports_WC_ERR_INVALID_CHARS env1 = supports_WC_ERR_INVALID_CHARS env2"
  shows "utf16ToUtf8 env1 u = utf16ToUtf8 env2 u"
proof -
  have f: "utf16ToUtf8_flags (utf16ToUtf8_osvi env1) = utf16ToUtf8_flags (utf16ToUtf8_osvi env2)"
    using assms by (simp add: utf16ToUtf8_flags_osvi)
  show ?thesis unfolding utf16ToUtf8_def utf16ToUtf8_target_def Let_def f WideCharToMultiByte_env[OF assms] ..
qed

theorem utf16ToUtf8_env_independent_witness:
  "supports_WC_ERR_INVALID_CHARS \<lparr>os_major = 10, os_minor = 0, os_build = 19045, os_manifested = True\<rparr> =
   supports_WC_ERR_INVALID_CHARS \<lparr>os_major = 6, os_minor = 3, os_build = 9600, os_manifested = False\<rparr> \<and>
   utf16ToUtf8 \<lparr>os_major = 10, os_minor = 0, os_build = 19045, os_manifested = True\<rparr> [0xDC00] =
   utf16ToUtf8 \<lparr>os_major = 6, os_minor = 3, os_build = 9600, os_manifested = False\<rparr> [0xDC00]"
  using utf16ToUtf8_env_independent[of "\<lparr>os_major = 10, os_minor = 0, os_build = 19045, os_manifested = True\<rparr>"
      "\<lparr>os_major = 6, os_minor = 3, os_build = 9600, os_manifested = False\<rparr>" "[0xDC00]"]
  by (simp add: supports_WC_ERR_INVALID_CHARS_def)

end
