(* ===== verification/CharacterEncoder_Interface.thy ===== *)
theory CharacterEncoder_Interface
  imports CharacterEncoder
begin

text \<open>
  The contracts that the documentation comments of \<open>src/inc/CharacterEncoder.h\<close>
  state for the two static methods, as predicates on an input and an outcome, and the
  theorems that show where the code departs from them.
\<close>

section \<open>The documented contracts\<close>

text \<open>
  \<open>@return the specified string encoded in UTF-16\<close>, \<open>@throws std::exception if
  specified string cannot be processed\<close>: a returned string carries the code points of
  the input; an exception means the input is not well-formed UTF-8.
\<close>

definition utf8_converted :: "byte list \<Rightarrow> encoder_exception + wchar_t list \<Rightarrow> bool" where
  "utf8_converted utf8String r \<longleftrightarrow>
     (case r of
        Inl e \<Rightarrow> utf8_decode utf8String = None
      | Inr w \<Rightarrow> utf8_decode utf8String \<noteq> None \<and> utf16_decode w = utf8_decode utf8String)"

text \<open>
  \<open>If the specified string is greater than the range of "int" in bytes, then the
  string is truncated\<close>: a string of at most \<open>INT_MAX\<close> bytes is converted whole, a
  longer one is converted after cutting it to some shorter prefix. The documentation
  does not say where the cut falls, so this branch is the weakest reading of
  "truncated"; the theorems below only show that an outcome violates a contract, which
  is then a violation under every stronger reading too.
\<close>

definition utf8ToUtf16_contract :: "byte list \<Rightarrow> encoder_exception + wchar_t list \<Rightarrow> bool" where
  "utf8ToUtf16_contract utf8String r \<longleftrightarrow>
     (if int (length utf8String) \<le> sint INT_MAX then utf8_converted utf8String r
      else \<exists>n < length utf8String. utf8_converted (take n utf8String) r)"

definition utf16_converted :: "wchar_t list \<Rightarrow> encoder_exception + byte list \<Rightarrow> bool" where
  "utf16_converted utf16String r \<longleftrightarrow>
     (case r of
        Inl e \<Rightarrow> utf16_decode utf16String = None
      | Inr s \<Rightarrow> utf16_decode utf16String \<noteq> None \<and> utf8_decode s = utf16_decode utf16String)"

text \<open>The same for \<open>utf16ToUtf8\<close>; a \<open>wchar_t\<close> takes two bytes.\<close>

definition utf16ToUtf8_contract :: "wchar_t list \<Rightarrow> encoder_exception + byte list \<Rightarrow> bool" where
  "utf16ToUtf8_contract utf16String r \<longleftrightarrow>
     (if 2 * int (length utf16String) \<le> sint INT_MAX then utf16_converted utf16String r
      else \<exists>n < length utf16String. utf16_converted (take n utf16String) r)"

section \<open>Facts\<close>

lemma utf8ToUtf16_decode_prefix:
  assumes "length s < 2 ^ 64"
  shows "utf8ToUtf16 s =
     (case utf8_decode (take 2147483646 s) of None \<Rightarrow> Inl Utf8Error | Some cps \<Rightarrow> Inr (utf16_encode cps))"
  using assms by (cases "s = []") (simp_all add: utf8ToUtf16_eq_spec utf8ToUtf16_spec_def)

lemma utf8_decode_ascii_replicate:
  "unat b < 0x80 \<Longrightarrow> utf8_decode (replicate n b) = Some (replicate n (unat b))"
  using utf8_decode_ascii_prefix[of b n "[]"] by simp

lemma utf16_encode_ascii_replicate:
  "unat u < 0x80 \<Longrightarrow> utf16_encode (replicate n (unat u)) = replicate n u"
  by (induction n) (simp_all add: utf16_encode_char_def wchar_unat)

section \<open>Properties of the interface\<close>

text \<open>
  C21 (functional): a string of exactly \<open>INT_MAX\<close> bytes fits the
  range of \<open>int\<close>, which the documentation says is converted whole, but the guard
  cuts it to \<open>INT_MAX - 1\<close> bytes: its last character is dropped without notice.
\<close>

theorem utf8ToUtf16_truncates_int_sized_input:
  "utf8ToUtf16 (replicate 2147483647 0x41) = Inr (replicate 2147483646 0x41) \<and>
   \<not> utf8ToUtf16_contract (replicate 2147483647 0x41) (utf8ToUtf16 (replicate 2147483647 0x41))"
proof -
  have a: "unat (0x41 :: byte) < 0x80" "unat (0x41 :: wchar_t) < 0x80" by simp_all
  have r: "utf8ToUtf16 (replicate 2147483647 0x41) = Inr (replicate 2147483646 0x41)"
    using utf16_encode_ascii_replicate[OF a(2), of 2147483646]
    by (simp add: utf8ToUtf16_decode_prefix utf8_decode_ascii_replicate[OF a(1)])
  have "utf16_decode (replicate 2147483646 (0x41 :: wchar_t)) = Some (replicate 2147483646 0x41)"
    using utf16_decode_replicate[of "0x41 :: wchar_t"] by (simp add: codec_eval)
  with r show ?thesis
    by (simp add: utf8ToUtf16_contract_def utf8_converted_def utf8_decode_ascii_replicate[OF a(1)])
qed

theorem utf8ToUtf16_truncates_int_sized_input_witness:
  "\<not> utf8ToUtf16_contract (replicate 2147483647 0x41) (Inr (replicate 2147483646 0x41))"
proof -
  have e: "utf8ToUtf16 (replicate 2147483647 0x41) = Inr (replicate 2147483646 0x41)"
    and n: "\<not> utf8ToUtf16_contract (replicate 2147483647 0x41) (utf8ToUtf16 (replicate 2147483647 0x41))"
    using utf8ToUtf16_truncates_int_sized_input by auto
  from n show ?thesis unfolding e .
qed

text \<open>
  C22 (refinement): from Windows Vista on, \<open>utf16ToUtf8\<close> meets its documented contract
  for every input of at most a third of the guard: a well-formed string is converted
  whole, an ill-formed one is rejected.
\<close>

theorem utf16ToUtf8_meets_contract:
  assumes "supports_WC_ERR_INVALID_CHARS env" and "length u \<le> 715827882"
  shows "utf16ToUtf8_contract u (utf16ToUtf8 env u)"
proof -
  have fits: "2 * int (length u) \<le> sint INT_MAX" using assms(2) by simp
  have t: "take 2147483646 u = u" and l: "length u < 2 ^ 64" using assms(2) by simp_all
  show ?thesis
  proof (cases "utf16_decode u")
    case None
    then have "u \<noteq> []" by auto
    with None assms(1) t l have "utf16ToUtf8 env u = Inl Utf16Error"
      by (simp add: utf16ToUtf8_eq_spec utf16ToUtf8_spec_def supports_WC_ERR_INVALID_CHARS_def)
    with None fits show ?thesis by (simp add: utf16ToUtf8_contract_def utf16_converted_def)
  next
    case (Some cps)
    from utf16_decode_inv[OF Some] have sc: "list_all is_scalar cps" and e: "utf16_encode cps = u" by auto
    have "length (utf8_encode cps) \<le> 2147483647"
      using length_utf8_le_3_utf16[of cps] e assms(2) by simp
    then have "utf16ToUtf8 env u = Inr (utf8_encode cps)"
      using Some assms(2) by (intro utf16ToUtf8_valid) simp_all
    with Some sc fits show ?thesis
      by (simp add: utf16ToUtf8_contract_def utf16_converted_def utf8_decode_encode)
  qed
qed

theorem utf16ToUtf8_meets_contract_witness:
  "supports_WC_ERR_INVALID_CHARS \<lparr>os_major = 10, os_minor = 0, os_build = 19045, os_manifested = False\<rparr> \<and>
   length [0x41, 0xD800 :: wchar_t] \<le> 715827882 \<and>
   utf16ToUtf8_contract [0x41, 0xD800] (utf16ToUtf8 \<lparr>os_major = 10, os_minor = 0, os_build = 19045, os_manifested = False\<rparr> [0x41, 0xD800])"
  using utf16ToUtf8_meets_contract[of "\<lparr>os_major = 10, os_minor = 0, os_build = 19045, os_manifested = False\<rparr>" "[0x41, 0xD800]"]
  by (simp add: supports_WC_ERR_INVALID_CHARS_def)

text \<open>
  C23 (functional): the documentation measures the truncation threshold in bytes, the
  code in code units. A string of \<open>2^30\<close> code units occupies \<open>2^31\<close> bytes, more than
  the range of \<open>int\<close>, so the documentation says it is truncated; the code converts
  it whole, on every system.
\<close>

theorem utf16ToUtf8_ignores_byte_size:
  "utf16ToUtf8 env (replicate 1073741824 0x41) = Inr (replicate 1073741824 0x41) \<and>
   \<not> utf16ToUtf8_contract (replicate 1073741824 0x41) (utf16ToUtf8 env (replicate 1073741824 0x41))"
proof -
  have a: "unat (0x41 :: byte) < 0x80" "unat (0x41 :: wchar_t) < 0x80" by simp_all
  have nb: "\<not> is_high_surrogate (0x41 :: wchar_t)" "\<not> is_low_surrogate (0x41 :: wchar_t)"
    by (simp_all add: codec_eval)
  have d: "utf16_decode (replicate n (0x41 :: wchar_t)) = Some (replicate n 0x41)" for n
    using utf16_decode_replicate[OF nb, of n] by simp
  have r: "utf16ToUtf8 env (replicate 1073741824 0x41) = Inr (replicate 1073741824 0x41)"
    using d[of 1073741824] utf16_decode_subst_strict[OF d[of 1073741824]]
      utf8_encode_ascii_replicate[OF a(1), of 1073741824]
    by (simp add: utf16ToUtf8_eq_spec utf16ToUtf8_spec_def)
  have "\<not> utf16_converted (take n (replicate 1073741824 0x41)) (Inr (replicate 1073741824 0x41))"
    if "n < 1073741824" for n
    using that d[of n] utf8_decode_ascii_replicate[OF a(1), of 1073741824]
    by (simp add: utf16_converted_def)
  with r show ?thesis by (auto simp: utf16ToUtf8_contract_def)
qed

theorem utf16ToUtf8_ignores_byte_size_witness:
  "\<not> utf16ToUtf8_contract (replicate 1073741824 0x41) (Inr (replicate 1073741824 0x41))"
proof -
  have e: "utf16ToUtf8 \<lparr>os_major = 10, os_minor = 0, os_build = 19045, os_manifested = False\<rparr> (replicate 1073741824 0x41) =
      Inr (replicate 1073741824 0x41)"
    and n: "\<not> utf16ToUtf8_contract (replicate 1073741824 0x41)
      (utf16ToUtf8 \<lparr>os_major = 10, os_minor = 0, os_build = 19045, os_manifested = False\<rparr> (replicate 1073741824 0x41))"
    using utf16ToUtf8_ignores_byte_size[of "\<lparr>os_major = 10, os_minor = 0, os_build = 19045, os_manifested = False\<rparr>"]
    by auto
  from n show ?thesis unfolding e .
qed

end
