(* ===== verification/Utf8_Table.thy ===== *)
theory Utf8_Table
  imports Utf8_String
begin

text \<open>
  Table 3-7 of the Unicode Standard (Well-Formed UTF-8 Byte Sequences) as data: each
  row lists the allowed range of every byte of one sequence. A byte string is
  well-formed when it splits into sequences that each match a row. The theorem of
  this theory is that the strict decoder of \<open>Utf8_String\<close>, which computes code
  points and rejects overlong forms, surrogates and values above U+10FFFF, accepts
  exactly the strings the table allows, and consumes one row at a time.
\<close>

section \<open>The table\<close>

definition utf8_table :: "(nat \<times> nat) list list" where
  "utf8_table =
     [[(0x00, 0x7F)],
      [(0xC2, 0xDF), (0x80, 0xBF)],
      [(0xE0, 0xE0), (0xA0, 0xBF), (0x80, 0xBF)],
      [(0xE1, 0xEC), (0x80, 0xBF), (0x80, 0xBF)],
      [(0xED, 0xED), (0x80, 0x9F), (0x80, 0xBF)],
      [(0xEE, 0xEF), (0x80, 0xBF), (0x80, 0xBF)],
      [(0xF0, 0xF0), (0x90, 0xBF), (0x80, 0xBF), (0x80, 0xBF)],
      [(0xF1, 0xF3), (0x80, 0xBF), (0x80, 0xBF), (0x80, 0xBF)],
      [(0xF4, 0xF4), (0x80, 0x8F), (0x80, 0xBF), (0x80, 0xBF)]]"

text \<open>A row matches a string when the string's first bytes lie in the row's ranges.\<close>

fun row_matches :: "(nat \<times> nat) list \<Rightarrow> byte list \<Rightarrow> bool" where
  "row_matches [] bs = True"
| "row_matches (rg # row) [] = False"
| "row_matches ((lo, hi) # row) (b # bs) = (lo \<le> unat b \<and> unat b \<le> hi \<and> row_matches row bs)"

text \<open>The length of the sequence a string starts with, if a row matches it.\<close>

definition table_seq :: "byte list \<Rightarrow> nat option" where
  "table_seq bs = map_option length (find (\<lambda>row. row_matches row bs) utf8_table)"

function utf8_table_wf :: "byte list \<Rightarrow> bool" where
  "utf8_table_wf [] = True"
| "utf8_table_wf (b # bs) =
     (case table_seq (b # bs) of
        None \<Rightarrow> False
      | Some n \<Rightarrow> utf8_table_wf (drop n (b # bs)))"
  by pat_completeness auto
termination
  by (relation "measure length") (auto simp: table_seq_def utf8_table_def split: if_splits)

section \<open>The decoder reads the table\<close>

text \<open>
  One sequence: the decoder accepts a sequence exactly when a row of the table
  matches it, and leaves the bytes after that row. The proof splits on the eleven
  classes of lead byte the table distinguishes, grouped by sequence length.
\<close>

lemma utf8_dec1_table_short:
  assumes "unat b < 0xE0"
  shows "map_option snd (utf8_dec1 (b # r)) = map_option (\<lambda>n. drop n (b # r)) (table_seq (b # r))"
proof -
  consider "unat b < 0x80" | "0x80 \<le> unat b" "unat b < 0xC2" | "0xC2 \<le> unat b" "unat b < 0xE0"
    using assms by linarith
  then show ?thesis
    by cases (cases r rule: list_shapes3;
        auto simp: table_seq_def utf8_table_def utf8_seq_def codec_eval)+
qed

lemma utf8_dec1_table_three:
  assumes "0xE0 \<le> unat b" and "unat b < 0xF0"
  shows "map_option snd (utf8_dec1 (b # r)) = map_option (\<lambda>n. drop n (b # r)) (table_seq (b # r))"
proof -
  consider "unat b = 0xE0" | "0xE1 \<le> unat b" "unat b < 0xED" | "unat b = 0xED"
    | "0xEE \<le> unat b" "unat b < 0xF0"
    using assms by linarith
  then show ?thesis
    by cases (cases r rule: list_shapes3;
        auto simp: table_seq_def utf8_table_def utf8_seq_def codec_eval)+
qed

lemma utf8_dec1_table_four:
  assumes "0xF0 \<le> unat b"
  shows "map_option snd (utf8_dec1 (b # r)) = map_option (\<lambda>n. drop n (b # r)) (table_seq (b # r))"
proof -
  consider "unat b = 0xF0" | "0xF1 \<le> unat b" "unat b < 0xF4" | "unat b = 0xF4" | "0xF5 \<le> unat b"
    using assms by linarith
  then show ?thesis
    by cases (cases r rule: list_shapes3;
        auto simp: table_seq_def utf8_table_def utf8_seq_def codec_eval)+
qed

lemma utf8_dec1_table:
  "map_option snd (utf8_dec1 bs) = map_option (\<lambda>n. drop n bs) (table_seq bs)"
proof (cases bs)
  case Nil
  then show ?thesis by (simp add: table_seq_def utf8_table_def)
next
  case (Cons b r)
  consider "unat b < 0xE0" | "0xE0 \<le> unat b" "unat b < 0xF0" | "0xF0 \<le> unat b" by linarith
  then show ?thesis unfolding Cons
    by cases (simp_all only: utf8_dec1_table_short utf8_dec1_table_three utf8_dec1_table_four)
qed

text \<open>Whole strings: strict decoding succeeds exactly on the strings Table 3-7 allows.\<close>

lemma utf8_valid_table: "utf8_valid bs \<longleftrightarrow> utf8_table_wf bs"
  unfolding utf8_valid_def
proof (induction bs rule: utf8_decode.induct)
  case 1
  then show ?case by simp
next
  case (2 b bs)
  note row = utf8_dec1_table[of "b # bs"]
  show ?case
  proof (cases "utf8_dec1 (b # bs)")
    case None
    with row show ?thesis by (simp del: utf8_dec1.simps)
  next
    case (Some p)
    obtain c r where p: "p = (c, r)" by fastforce
    from row Some p obtain n where n: "table_seq (b # bs) = Some n" and r: "r = drop n (b # bs)"
      by (cases "table_seq (b # bs)") (simp_all del: utf8_dec1.simps)
    have "utf8_decode r \<noteq> None \<longleftrightarrow> utf8_table_wf r" using "2.IH" Some p by blast
    with Some p n r show ?thesis by (simp del: utf8_dec1.simps)
  qed
qed

end
