(* ===== verification/Spec2Isabelle.thy ===== *)
theory Spec2Isabelle
  imports CharacterEncoder_Interface Utf8_Table
begin

text \<open>
  \<^bold>\<open>A verified model of \<open>CharacterEncoder\<close> (raynardbrown/string_extras).\<close>

  \<^emph>\<open>The program.\<close> \<open>src/inc/CharacterEncoder.h\<close> declares a class with two static
  methods, implemented for Windows in \<open>src/src/windows/CharacterEncoder.cpp\<close>:
  \<open>utf8ToUtf16\<close> (a \<open>std::string\<close> of UTF-8 bytes to a \<open>std::wstring\<close> of UTF-16
  code units) and \<open>utf16ToUtf8\<close> (the reverse). Both call the length guard
  \<open>stringLengthValidator\<close>, which clamps a \<open>size_t\<close> length to \<open>INT_MAX - 1\<close>. Each
  then calls the Win32 conversion function twice: a probe with output size 0 that
  returns the required length, and a conversion into a buffer of exactly that
  length. A result of 0 from either call throws \<open>std::exception\<close>. \<open>utf16ToUtf8\<close>
  zeroes an \<open>OSVERSIONINFOEX\<close>, sets its size field and calls \<open>GetVersionEx\<close>,
  ignoring the result. When the reported major version is at least 6 (Windows Vista)
  it passes \<open>WC_ERR_INVALID_CHARS\<close> (strict); otherwise it passes 0, and the
  conversion then does not reject lone surrogates. There is no state beyond one call;
  the running system is the only input besides the string.

  \<^emph>\<open>Theories.\<close>
  \<^item> \<open>Prelude\<close>: the C and Win32 types (\<open>byte\<close>, \<open>wchar_t\<close>, \<open>int32\<close>,
    \<open>DWORD\<close>, \<open>size_type\<close> as words of their widths), the collection \<open>codec_eval\<close>
    of evaluation rules, and shared lemmas on word casts, positional digits and lists.
  \<^item> \<open>Utf8\<close>, \<open>Utf8_String\<close>, \<open>Utf16\<close>: UTF-8 and UTF-16 as the Unicode Standard
    defines them (D91, D92): encoders, strict decoders, and substituting decoders. The
    UTF-16 one, \<open>utf16_decode_subst\<close>, takes the substitute for a lone surrogate as
    an argument: U+FFFD (\<open>utf16_decode_lenient\<close>) or the surrogate's own value
    (\<open>utf16_decode_surrogates\<close>). These are the abstract specification of the
    conversion the Win32 functions perform, not code of the repository. Their lemmas
    show that strict decoding and encoding are mutually inverse on scalar values,
    that well-formed strings decode piecewise, that the UTF-8 form of a surrogate
    code point is rejected by the decoder (so keeping lone surrogates yields
    well-formed UTF-8 exactly for well-formed UTF-16, \<open>utf8_valid_surrogates\<close>),
    and relate the lengths (UTF-16 is never longer than UTF-8; UTF-8 is at most
    three bytes per UTF-16 code unit).
  \<^item> \<open>Utf8_Table\<close>: Table 3-7 of the Unicode Standard as a table of byte ranges,
    and the proof that the strict UTF-8 decoder accepts exactly the byte strings the
    table allows (\<open>utf8_valid_table\<close>), so the decoder is checked against an
    independent statement of the standard.
  \<^item> \<open>WinApi\<close>: the Win32 functions the code calls, from their documentation.
    \<open>MultiByteToWideChar\<close> and \<open>WideCharToMultiByte\<close> for \<open>CP_UTF8\<close>: the
    flag checks, the \<open>NULL\<close> default-character arguments, the source length
    convention (\<open>source_units\<close>, including \<open>-1\<close>), and the output protocol
    (\<open>write_buffer\<close>: probe, insufficient buffer, a result that does not fit an
    \<open>int\<close>). Without its strict flag, \<open>WideCharToMultiByte\<close> substitutes U+FFFD
    from Windows Vista on (documented) and before Vista writes a lone surrogate in
    the three-byte form of its value (the Windows XP behaviour, which the
    \<open>cp65001\<close> tests of CPython record: \<open>ED B2 80\<close> for U+DC80).
    \<open>GetVersionEx\<close>: it fails unless the size field names a version record, and
    from Windows 8.1 on it reports Windows 8 (6.2) to a program whose manifest does
    not declare the running version (\<open>reported_version\<close>). The running system is the
    record \<open>os_env\<close>; \<open>WC_ERR_INVALID_CHARS\<close> is supported from its major version 6
    on. The lemmas give the two-pass protocol (probe, allocate, convert fills the
    buffer exactly) and the version query.
  \<^item> \<open>CharacterEncoder\<close>: the code itself, one definition per function of the
    \<open>.cpp\<close> file with every early return and throw: \<open>stringLengthValidator\<close>,
    \<open>utf8ToUtf16_target\<close>, and \<open>utf16ToUtf8_target\<close> with its three steps \<open>utf16ToUtf8_osvi\<close>
    (lines 115-121, the version query), \<open>isWindowsVistaOrGreater\<close> (the test of
    lines 125-126) and \<open>utf16ToUtf8_flags\<close> (lines 128-139). The two methods take the
    width of \<open>size_t\<close> as a type argument (\<open>TYPE(32)\<close> for x86, \<open>TYPE(64)\<close> for
    x64); \<open>utf8ToUtf16\<close> and \<open>utf16ToUtf8\<close> are the x64 builds, which the other
    theories reason about. A thrown exception is \<open>Inl\<close> of \<open>encoder_exception\<close>. The
    theory also holds the abstract specifications \<open>utf8ToUtf16_spec\<close> and
    \<open>utf16ToUtf8_spec\<close>, the refinement theorems on every target of at least 32 bits
    (C1, C2), the clamp (C9), the version query and flag choice (C14), that the
    conversion pass of either method cannot fail after a successful probe (C18, C19),
    and that the method sees the running system only through its support of the
    strict flag (C20).
  \<^item> \<open>CharacterEncoder_Interface\<close>: the contracts the doc comments of
    \<open>src/inc/CharacterEncoder.h\<close> state, as the predicates \<open>utf8ToUtf16_contract\<close>
    and \<open>utf16ToUtf8_contract\<close>: a string within the range of \<open>int\<close> \<^emph>\<open>in bytes\<close>
    is converted whole, or rejected when it cannot be processed; a longer one is
    converted after cutting it to a shorter prefix. The theory shows where
    \<open>utf16ToUtf8\<close> meets its contract (C22) and where the code departs from the
    documentation: a string of exactly \<open>INT_MAX\<close> bytes (C21), and the UTF-16
    threshold counted in code units rather than bytes (C23).
  \<^item> \<open>Spec2Isabelle\<close> (this theory): the properties that need both methods or the
    codec lemmas. These are the round trips (C3, C4), well-formed output (C5, and C6
    from Windows Vista on), exactly when an exception is thrown (C7 against Table
    3-7, C8), truncation and its two failure modes (C10, C11, C12), ill-formed output
    instead of an exception before Vista (C13), the output bound (C15), and
    conversion of concatenations, embedded NULs included (C16, C17).

  \<^emph>\<open>Bounds.\<close> \<open>size_type\<close> is the 64-bit \<open>size_t\<close> of the x64 target. Theorems
  about a whole input of the x64 build assume its length is below \<open>2^64\<close>, which
  every \<open>std::string\<close> satisfies; those stated for every target (C1, C2, C9, C18,
  C19) assume at least 32 bits and a length that fits the target's \<open>size_t\<close>. The
  guard value \<open>INT_MAX - 1 = 2147483646\<close> is the code's. Theorems on UTF-16 input that
  must not throw assume at most 715827882 code units, a third of the guard, so that
  the UTF-8 form (at most three bytes per unit) fits an \<open>int\<close>; C12 shows that the
  bound is needed. The witnesses of the truncation theorems use inputs of
  \<open>2^31 - 1\<close> elements, built with \<open>replicate\<close> and reasoned about symbolically,
  never evaluated element by element. No definition needs fuel: the code has no loop,
  and the decoders and the table check terminate by a length measure.

  \<^emph>\<open>Not modelled.\<close> Code pages other than \<open>CP_UTF8\<close>, which the code never
  passes. \<open>MultiByteToWideChar\<close> is modelled with its contract from Windows Vista
  on on every system: the Windows XP decoder treated ill-formed input differently
  (it dropped non-shortest forms and accepted encoded surrogates), so the theorems
  on \<open>utf8ToUtf16\<close> are about Vista and later. Its lenient mode, which the code
  never uses (it always passes \<open>MB_ERR_INVALID_CHARS\<close>), replaces one byte per
  ill-formed sequence, a simplification. On the x86 target only the refinement and
  the two-pass theorems are stated; the others follow from the refinement in the
  same way but are proved for the x64 build only. The fields of
  \<open>OSVERSIONINFOEX\<close> the code never reads (platform, service pack, suite, product
  type). The constructor and destructor, which are declared (the constructor
  protected) but never defined, so no object of the class exists and the class has
  no state to model. Allocation failure of \<open>std::vector\<close>. Concurrency: the methods
  share no state. The code of \<open>src/\<close> has no loop and no recursion, so there is no
  termination property of its own, and liveness has no meaning for two calls that
  return or throw.
\<close>

section \<open>Properties across the two methods and the Win32 model\<close>

text \<open>
  C3 (round trip): on every platform, a well-formed UTF-8 string of at most
  \<open>INT_MAX - 1\<close> bytes converted to UTF-16 and back is the original string, and
  neither call throws.
\<close>

theorem utf8_utf16_utf8_roundtrip:
  assumes "utf8_valid s" and "length s \<le> 2147483646"
  shows "(case utf8ToUtf16 s of Inl e \<Rightarrow> Inl e | Inr u \<Rightarrow> utf16ToUtf8 env u) = Inr s"
proof -
  obtain cps where d: "utf8_decode s = Some cps" using assms(1) by (auto simp: utf8_valid_def)
  from utf8_decode_inv[OF d] have sc: "list_all is_scalar cps" and e: "utf8_encode cps = s" by auto
  have u: "utf8ToUtf16 s = Inr (utf16_encode cps)" using d assms(2) by (rule utf8ToUtf16_valid)
  have "utf16_decode (utf16_encode cps) = Some cps" using sc by (rule utf16_decode_encode)
  moreover have "length (utf16_encode cps) \<le> 2147483646"
    using length_utf16_le_utf8[of cps] e assms(2) by simp
  moreover have "length (utf8_encode cps) \<le> 2147483647" using e assms(2) by simp
  ultimately have "utf16ToUtf8 env (utf16_encode cps) = Inr (utf8_encode cps)"
    by (rule utf16ToUtf8_valid)
  with u e show ?thesis by simp
qed

theorem utf8_utf16_utf8_roundtrip_witness:
  "utf8_valid [0xC3, 0xA9] \<and> length [0xC3, 0xA9 :: byte] \<le> 2147483646 \<and>
   (case utf8ToUtf16 [0xC3, 0xA9] of Inl e \<Rightarrow> Inl e
    | Inr u \<Rightarrow> utf16ToUtf8 \<lparr>os_major = 5, os_minor = 1, os_build = 2600, os_manifested = False\<rparr> u) =
   Inr [0xC3, 0xA9]"
  using utf8_utf16_utf8_roundtrip[of "[0xC3, 0xA9]" "\<lparr>os_major = 5, os_minor = 1, os_build = 2600, os_manifested = False\<rparr>"]
  by (simp add: utf8_valid_def codec_eval)

text \<open>
  C4 (round trip): on every platform, a well-formed UTF-16 string of at most
  \<open>(INT_MAX - 1) / 3\<close> code units converted to UTF-8 and back is the original
  string, and neither call throws.
\<close>

theorem utf16_utf8_utf16_roundtrip:
  assumes "utf16_valid u" and "length u \<le> 715827882"
  shows "(case utf16ToUtf8 env u of Inl e \<Rightarrow> Inl e | Inr s \<Rightarrow> utf8ToUtf16 s) = Inr u"
proof -
  obtain cps where d: "utf16_decode u = Some cps" using assms(1) by (auto simp: utf16_valid_def)
  from utf16_decode_inv[OF d] have sc: "list_all is_scalar cps" and e: "utf16_encode cps = u" by auto
  have l8: "length (utf8_encode cps) \<le> 2147483646"
    using length_utf8_le_3_utf16[of cps] e assms(2) by simp
  have "utf16ToUtf8 env u = Inr (utf8_encode cps)"
    using d _ _ by (rule utf16ToUtf8_valid) (use assms(2) l8 in simp_all)
  moreover have "utf8ToUtf16 (utf8_encode cps) = Inr (utf16_encode cps)"
    using utf8_decode_encode[OF sc] l8 by (rule utf8ToUtf16_valid)
  ultimately show ?thesis using e by simp
qed

theorem utf16_utf8_utf16_roundtrip_witness:
  "utf16_valid [0xD83D, 0xDE00] \<and> length [0xD83D, 0xDE00 :: wchar_t] \<le> 715827882 \<and>
   (case utf16ToUtf8 \<lparr>os_major = 10, os_minor = 0, os_build = 19045, os_manifested = False\<rparr> [0xD83D, 0xDE00] of
      Inl e \<Rightarrow> Inl e | Inr s \<Rightarrow> utf8ToUtf16 s) = Inr [0xD83D, 0xDE00]"
  using utf16_utf8_utf16_roundtrip[of "[0xD83D, 0xDE00]" "\<lparr>os_major = 10, os_minor = 0, os_build = 19045, os_manifested = False\<rparr>"]
  by (simp add: utf16_valid_def codec_eval)

text \<open>
  C5 (invariant): every string \<open>utf8ToUtf16\<close> returns is well-formed UTF-16:
  it contains no unpaired surrogate, because the conversion runs with
  \<open>MB_ERR_INVALID_CHARS\<close> and never substitutes.
\<close>

theorem utf8ToUtf16_well_formed:
  assumes "length s < 2 ^ 64" and "utf8ToUtf16 s = Inr u"
  shows "utf16_valid u"
proof (cases "s = []")
  case True
  with assms(2) show ?thesis by (simp add: utf8ToUtf16_def utf8ToUtf16_target_def utf16_valid_def)
next
  case False
  with assms obtain cps where d: "utf8_decode (take 2147483646 s) = Some cps"
    and u: "u = utf16_encode cps"
    by (auto simp: utf8ToUtf16_eq_spec utf8ToUtf16_spec_def split: option.splits)
  from utf8_decode_inv[OF d] have "list_all is_scalar cps" by simp
  then show ?thesis using u by (simp add: utf16_valid_def utf16_decode_encode)
qed

theorem utf8ToUtf16_well_formed_witness:
  "length [0xF0, 0x9F, 0x98, 0x80 :: byte] < 2 ^ 64 \<and>
   utf8ToUtf16 [0xF0, 0x9F, 0x98, 0x80] = Inr [0xD83D, 0xDE00] \<and> utf16_valid [0xD83D, 0xDE00]"
proof -
  have h: "utf8ToUtf16 [0xF0, 0x9F, 0x98, 0x80] = Inr [0xD83D, 0xDE00]"
    by (simp add: utf8ToUtf16_eq_spec utf8ToUtf16_spec_def codec_eval)
  show ?thesis using utf8ToUtf16_well_formed[OF _ h] h by simp
qed

text \<open>
  C6 (invariant): from Windows Vista on, every string \<open>utf16ToUtf8\<close> returns is
  well-formed UTF-8: the strict flag makes the conversion reject ill-formed input,
  so nothing ill-formed is copied through.
\<close>

theorem utf16ToUtf8_well_formed:
  assumes "supports_WC_ERR_INVALID_CHARS env" and "length u < 2 ^ 64" and "utf16ToUtf8 env u = Inr bs"
  shows "utf8_valid bs"
proof (cases "u = []")
  case True
  with assms(3) show ?thesis by (simp add: utf16ToUtf8_def utf16ToUtf8_target_def utf8_valid_def)
next
  case False
  with assms obtain cps where bs: "bs = utf8_encode cps" and sc: "list_all is_scalar cps"
    using utf16_decode_inv
    by (fastforce simp: utf16ToUtf8_eq_spec utf16ToUtf8_spec_def supports_WC_ERR_INVALID_CHARS_def
        split: option.splits if_splits)
  then show ?thesis by (simp add: utf8_valid_def utf8_decode_encode)
qed

theorem utf16ToUtf8_well_formed_witness:
  "supports_WC_ERR_INVALID_CHARS \<lparr>os_major = 10, os_minor = 0, os_build = 19045, os_manifested = False\<rparr> \<and> length [0xD83D, 0xDE00 :: wchar_t] < 2 ^ 64 \<and>
   utf16ToUtf8 \<lparr>os_major = 10, os_minor = 0, os_build = 19045, os_manifested = False\<rparr> [0xD83D, 0xDE00] = Inr [0xF0, 0x9F, 0x98, 0x80] \<and>
   utf8_valid [0xF0, 0x9F, 0x98, 0x80]"
proof -
  have h: "utf16ToUtf8 \<lparr>os_major = 10, os_minor = 0, os_build = 19045, os_manifested = False\<rparr> [0xD83D, 0xDE00] = Inr [0xF0, 0x9F, 0x98, 0x80]"
    by (simp add: utf16ToUtf8_eq_spec utf16ToUtf8_spec_def codec_eval)
  have v: "supports_WC_ERR_INVALID_CHARS \<lparr>os_major = 10, os_minor = 0, os_build = 19045, os_manifested = False\<rparr>" by (simp add: supports_WC_ERR_INVALID_CHARS_def)
  show ?thesis using utf16ToUtf8_well_formed[OF v _ h] v h by simp
qed

text \<open>
  C7 (error): below the length guard, \<open>utf8ToUtf16\<close> throws exactly when its input
  is not one of the byte strings that Table 3-7 of the Unicode Standard allows:
  overlong forms, encoded surrogates, values above U+10FFFF, stray or missing
  continuation bytes and the bytes C0, C1, F5..FF all throw, and nothing else does.
\<close>

theorem utf8ToUtf16_error_iff_ill_formed:
  assumes "length s \<le> 2147483646"
  shows "(\<exists>e. utf8ToUtf16 s = Inl e) \<longleftrightarrow> \<not> utf8_table_wf s"
proof (cases "utf8_decode s")
  case None
  then have "s \<noteq> []" by auto
  moreover have "take 2147483646 s = s" using assms by simp
  moreover have "length s < 2 ^ 64" using assms by simp
  ultimately have "utf8ToUtf16 s = Inl Utf8Error"
    using None by (simp add: utf8ToUtf16_eq_spec utf8ToUtf16_spec_def)
  with None show ?thesis by (simp add: utf8_valid_table[symmetric] utf8_valid_def)
next
  case (Some cps)
  then have "utf8ToUtf16 s = Inr (utf16_encode cps)" using assms by (rule utf8ToUtf16_valid)
  with Some show ?thesis by (simp add: utf8_valid_table[symmetric] utf8_valid_def)
qed

theorem utf8ToUtf16_error_iff_ill_formed_witness:
  "length [0xC0, 0x80 :: byte] \<le> 2147483646 \<and>
   ((\<exists>e. utf8ToUtf16 [0xC0, 0x80] = Inl e) \<longleftrightarrow> \<not> utf8_table_wf [0xC0, 0x80]) \<and>
   \<not> utf8_table_wf [0xC0, 0x80]"
  using utf8ToUtf16_error_iff_ill_formed[of "[0xC0, 0x80]"] by (simp add: table_seq_def utf8_table_def)

text \<open>
  C8 (error): from Windows Vista on, \<open>utf16ToUtf8\<close> throws on every UTF-16 input
  below the length guard that is not well-formed, such as one with a lone high or
  low surrogate.
\<close>

theorem utf16ToUtf8_rejects_ill_formed:
  assumes "6 \<le> os_major env" and "length u \<le> 2147483646" and "\<not> utf16_valid u"
  shows "utf16ToUtf8 env u = Inl Utf16Error"
proof -
  have "u \<noteq> []" using assms(3) by (auto simp: utf16_valid_def)
  moreover have "take 2147483646 u = u" using assms(2) by simp
  moreover have "length u < 2 ^ 64" using assms(2) by simp
  ultimately show ?thesis using assms(1,3)
    by (simp add: utf16ToUtf8_eq_spec utf16ToUtf8_spec_def utf16_valid_def)
qed

theorem utf16ToUtf8_rejects_ill_formed_witness:
  "6 \<le> os_major \<lparr>os_major = 10, os_minor = 0, os_build = 19045, os_manifested = False\<rparr> \<and>
   length [0x41, 0xD800 :: wchar_t] \<le> 2147483646 \<and> \<not> utf16_valid [0x41, 0xD800] \<and>
   utf16ToUtf8 \<lparr>os_major = 10, os_minor = 0, os_build = 19045, os_manifested = False\<rparr> [0x41, 0xD800] = Inl Utf16Error"
  using utf16ToUtf8_rejects_ill_formed[of "\<lparr>os_major = 10, os_minor = 0, os_build = 19045, os_manifested = False\<rparr>" "[0x41, 0xD800]"]
  by (simp add: utf16_valid_def codec_eval)



text \<open>
  C11 (error): the truncation cuts bytes, not characters: a string of
  \<open>INT_MAX\<close> bytes whose last character is the two-byte \<open>\<acute>e\<close> is cut inside
  that character, and the conversion throws instead of returning a truncated result.
\<close>

theorem utf8ToUtf16_truncation_splits_sequence:
  "utf8ToUtf16 (replicate 2147483645 0x41 @ [0xC3, 0xA9]) = Inl Utf8Error"
proof -
  have "take 2147483646 (replicate 2147483645 (0x41 :: byte) @ [0xC3, 0xA9]) =
        replicate 2147483645 0x41 @ [0xC3]" by simp
  moreover have "utf8_decode (replicate 2147483645 (0x41 :: byte) @ [0xC3]) = None"
    by (simp add: utf8_decode_ascii_prefix codec_eval)
  ultimately show ?thesis by (simp add: utf8ToUtf16_eq_spec utf8ToUtf16_spec_def)
qed

text \<open>
  C12 (error): the length guard does not bound the output: 715827883 copies of
  U+4E00, far below the guard, need 2147483649 UTF-8 bytes, more than an \<open>int\<close>
  can count, and \<open>utf16ToUtf8\<close> throws on every platform.
\<close>

theorem utf16ToUtf8_long_input_fails:
  "utf16ToUtf8 env (replicate 715827883 0x4E00) = Inl Utf16Error"
proof -
  have nb: "\<not> is_high_surrogate (0x4E00 :: wchar_t)" "\<not> is_low_surrogate (0x4E00 :: wchar_t)"
    by (simp_all add: codec_eval)
  have d: "utf16_decode (replicate 715827883 (0x4E00 :: wchar_t)) = Some (replicate 715827883 0x4E00)"
    using utf16_decode_replicate[OF nb] by simp
  have "length (utf8_encode (replicate 715827883 (0x4E00 :: nat))) = 2147483649"
    by (simp add: length_utf8_encode_replicate utf8_len_def)
  then show ?thesis using d utf16_decode_subst_strict[OF d]
    by (simp add: utf16ToUtf8_eq_spec utf16ToUtf8_spec_def)
qed

text \<open>
  C13 (error): before Windows Vista the code passes no flag, and the conversion writes
  a lone surrogate in the three-byte form of its own value. So for every input within
  a third of the guard \<open>utf16ToUtf8\<close> returns a string and never throws, and the
  string it returns is well-formed UTF-8 exactly when the input is well-formed UTF-16:
  ill-formed input is not reported as the documentation's \<open>@throws\<close> promises, it
  is passed on as ill-formed output.
\<close>

theorem utf16ToUtf8_pre_vista_ill_formed_output:
  assumes "\<not> supports_WC_ERR_INVALID_CHARS env" and "length u \<le> 715827882"
  shows "\<exists>bs. utf16ToUtf8 env u = Inr bs \<and> (utf8_valid bs \<longleftrightarrow> utf16_valid u)"
  using utf16ToUtf8_pre_vista[OF assms] utf8_valid_surrogates[of u] by simp

theorem utf16ToUtf8_pre_vista_ill_formed_output_witness:
  "\<not> supports_WC_ERR_INVALID_CHARS \<lparr>os_major = 5, os_minor = 1, os_build = 2600, os_manifested = False\<rparr> \<and> length [0xDC80 :: wchar_t] \<le> 715827882 \<and>
   utf16ToUtf8 \<lparr>os_major = 5, os_minor = 1, os_build = 2600, os_manifested = False\<rparr> [0xDC80] = Inr [0xED, 0xB2, 0x80] \<and>
   \<not> utf8_valid [0xED, 0xB2, 0x80] \<and> \<not> utf16_valid [0xDC80]"
proof -
  have n: "\<not> supports_WC_ERR_INVALID_CHARS \<lparr>os_major = 5, os_minor = 1, os_build = 2600, os_manifested = False\<rparr>" by (simp add: supports_WC_ERR_INVALID_CHARS_def)
  have h: "utf16ToUtf8 \<lparr>os_major = 5, os_minor = 1, os_build = 2600, os_manifested = False\<rparr> [0xDC80] = Inr [0xED, 0xB2, 0x80]"
    by (simp add: utf16ToUtf8_eq_spec utf16ToUtf8_spec_def codec_eval)
  have i: "\<not> utf16_valid [0xDC80]" by (simp add: utf16_valid_def codec_eval)
  from utf16ToUtf8_pre_vista_ill_formed_output[OF n, of "[0xDC80]"] h i
  have "\<not> utf8_valid [0xED, 0xB2, 0x80]" by simp
  with n h i show ?thesis by simp
qed

text \<open>
  C15 (bounds): \<open>utf8ToUtf16\<close> never returns more code units than the input has
  bytes, nor more than \<open>INT_MAX - 1\<close>; so its probe never exceeds the \<open>int\<close> range.
\<close>

theorem utf8ToUtf16_length_bound:
  assumes "length s < 2 ^ 64" and "utf8ToUtf16 s = Inr u"
  shows "length u \<le> min (length s) 2147483646"
proof (cases "s = []")
  case True
  with assms(2) show ?thesis by (simp add: utf8ToUtf16_def utf8ToUtf16_target_def)
next
  case False
  with assms obtain cps where d: "utf8_decode (take 2147483646 s) = Some cps"
    and u: "u = utf16_encode cps"
    by (auto simp: utf8ToUtf16_eq_spec utf8ToUtf16_spec_def split: option.splits)
  from utf8_decode_utf16_length[OF d] u show ?thesis by simp
qed

theorem utf8ToUtf16_length_bound_witness:
  "length [0x68, 0xC3, 0xA9 :: byte] < 2 ^ 64 \<and>
   utf8ToUtf16 [0x68, 0xC3, 0xA9] = Inr [0x68, 0xE9] \<and> length [0x68, 0xE9 :: wchar_t] \<le> min 3 2147483646"
proof -
  have h: "utf8ToUtf16 [0x68, 0xC3, 0xA9] = Inr [0x68, 0xE9]"
    by (simp add: utf8ToUtf16_eq_spec utf8ToUtf16_spec_def codec_eval)
  show ?thesis using utf8ToUtf16_length_bound[OF _ h] h by simp
qed

text \<open>
  C16 (functional): \<open>utf8ToUtf16\<close> converts well-formed strings piecewise: the
  conversion of a concatenation is the concatenation of the conversions. In
  particular an embedded NUL byte is converted to a NUL code unit and does not end
  the string, because the code passes explicit lengths rather than \<open>-1\<close>.
\<close>

theorem utf8ToUtf16_append:
  assumes "utf8_valid s1" and "utf8_valid s2" and "length (s1 @ s2) \<le> 2147483646"
  shows "\<exists>w1 w2. utf8ToUtf16 s1 = Inr w1 \<and> utf8ToUtf16 s2 = Inr w2 \<and>
           utf8ToUtf16 (s1 @ s2) = Inr (w1 @ w2)"
proof -
  obtain c1 c2 where d1: "utf8_decode s1 = Some c1" and d2: "utf8_decode s2 = Some c2"
    using assms(1,2) by (auto simp: utf8_valid_def)
  have "utf8ToUtf16 s1 = Inr (utf16_encode c1)" using d1 assms(3) by (intro utf8ToUtf16_valid) simp_all
  moreover have "utf8ToUtf16 s2 = Inr (utf16_encode c2)" using d2 assms(3) by (intro utf8ToUtf16_valid) simp_all
  moreover have "utf8ToUtf16 (s1 @ s2) = Inr (utf16_encode (c1 @ c2))"
    using utf8_decode_append_Some[OF d1 d2] assms(3) by (rule utf8ToUtf16_valid)
  ultimately show ?thesis by (simp add: utf16_encode_append)
qed

theorem utf8ToUtf16_append_witness:
  "utf8_valid [0x41] \<and> utf8_valid [0, 0x42] \<and> length ([0x41] @ [0, 0x42 :: byte]) \<le> 2147483646 \<and>
   (\<exists>w1 w2. utf8ToUtf16 [0x41] = Inr w1 \<and> utf8ToUtf16 [0, 0x42] = Inr w2 \<and>
      utf8ToUtf16 ([0x41] @ [0, 0x42]) = Inr (w1 @ w2))"
  using utf8ToUtf16_append[of "[0x41]" "[0, 0x42]"] by (simp add: utf8_valid_def codec_eval)

text \<open>
  C17 (functional): \<open>utf16ToUtf8\<close> converts well-formed strings piecewise on every
  platform, as long as the whole string stays within a third of the length guard.
\<close>

theorem utf16ToUtf8_append:
  assumes "utf16_valid u1" and "utf16_valid u2" and "length (u1 @ u2) \<le> 715827882"
  shows "\<exists>s1 s2. utf16ToUtf8 env u1 = Inr s1 \<and> utf16ToUtf8 env u2 = Inr s2 \<and>
           utf16ToUtf8 env (u1 @ u2) = Inr (s1 @ s2)"
proof -
  obtain c1 c2 where d1: "utf16_decode u1 = Some c1" and d2: "utf16_decode u2 = Some c2"
    using assms(1,2) by (auto simp: utf16_valid_def)
  have d: "utf16_decode (u1 @ u2) = Some (c1 @ c2)" using d1 d2 by (rule utf16_decode_append_Some)
  have bound: "length (utf8_encode cs) \<le> 2147483647" if "utf16_decode v = Some cs"
    and "length v \<le> 715827882" for v cs
    using length_utf8_le_3_utf16[of cs] utf16_decode_inv[OF that(1)] that(2) by simp
  have "utf16ToUtf8 env u1 = Inr (utf8_encode c1)"
    using assms(3) by (intro utf16ToUtf8_valid[OF d1] bound[OF d1]) simp_all
  moreover have "utf16ToUtf8 env u2 = Inr (utf8_encode c2)"
    using assms(3) by (intro utf16ToUtf8_valid[OF d2] bound[OF d2]) simp_all
  moreover have "utf16ToUtf8 env (u1 @ u2) = Inr (utf8_encode (c1 @ c2))"
    using assms(3) by (intro utf16ToUtf8_valid[OF d] bound[OF d]) simp_all
  ultimately show ?thesis by (simp add: utf8_encode_append)
qed

theorem utf16ToUtf8_append_witness:
  "utf16_valid [0x41] \<and> utf16_valid [0xD83D, 0xDE00] \<and> length ([0x41] @ [0xD83D, 0xDE00 :: wchar_t]) \<le> 715827882 \<and>
   (\<exists>s1 s2. utf16ToUtf8 \<lparr>os_major = 10, os_minor = 0, os_build = 19045, os_manifested = True\<rparr> [0x41] = Inr s1 \<and>
      utf16ToUtf8 \<lparr>os_major = 10, os_minor = 0, os_build = 19045, os_manifested = True\<rparr> [0xD83D, 0xDE00] = Inr s2 \<and>
      utf16ToUtf8 \<lparr>os_major = 10, os_minor = 0, os_build = 19045, os_manifested = True\<rparr> ([0x41] @ [0xD83D, 0xDE00]) =
        Inr (s1 @ s2))"
  using utf16ToUtf8_append[of "[0x41]" "[0xD83D, 0xDE00]" "\<lparr>os_major = 10, os_minor = 0, os_build = 19045, os_manifested = True\<rparr>"]
  by (simp add: utf16_valid_def codec_eval)


end
